theory Spec2Isabelle
  imports
    Main
    "HOL-Library.Char_ord"
    "HOL-Library.List_Lexorder"
    "HOL-Library.Product_Lexorder"
begin

section \<open>The transform \<open>load_data\<close> of the COVID-19 dashboard\<close>

text \<open>
  The source is \<^verbatim>\<open>src/app.py\<close>. Its only computation is \<^verbatim>\<open>load_data\<close> (lines 17 to 73):
  three wide tables are melted to long format, their date labels are parsed, the long
  tables are left-joined on five key columns, missing values are filled with 0, the rows
  are grouped by country and date and summed, and two columns are derived.

  The network fetch of lines 20 to 22 is not part of the model: the three data frames are
  the arguments of the transform. Every pandas call of the source is one definition below,
  in the order of the source.
\<close>

subsection \<open>Data frames\<close>

text \<open>
  The four identifier columns. \<^verbatim>\<open>Province/State\<close> (type \<open>'p\<close>) and
  \<^verbatim>\<open>Country/Region\<close> (type \<open>'c\<close>) are a string or missing in the input:
  \<open>string option\<close>, with \<open>None\<close> for NaN. In the aggregated table the region is a
  string, and \<^verbatim>\<open>Province/State\<close> holds whatever pandas' sum of an object column
  yields. Strings are ordered as Python orders them, character by character.
  \<^verbatim>\<open>Lat\<close> and \<^verbatim>\<open>Long\<close> are numeric columns; their type \<open>'f\<close> is left open, and
  equality on \<open>'f\<close> is the equality pandas uses to match join keys.
\<close>

record ('p, 'c, 'f) ident =
  Province_State :: 'p
  Country_Region :: 'c
  Lat :: 'f
  Long :: 'f

text \<open>
  A row of a wide table: the identifiers and one cell per date column, read by the
  column's label; \<open>None\<close> is a missing cell (NaN).
\<close>

record ('p, 'c, 'f) raw_row = "('p, 'c, 'f) ident" +
  cell :: "string \<Rightarrow> int option"

text \<open>
  A wide table as \<^verbatim>\<open>read_csv\<close> returns it: the four identifier columns come first,
  the date columns follow. A table of the data set has at least one date column: the label
  of the first is a field of its own, so that a table with none is not a value of the
  type. \<open>date_columns\<close> are the labels of the columns after the identifiers
  (\<^verbatim>\<open>df.columns[4:]\<close>).
\<close>

record ('p, 'c, 'f) raw_table =
  first_date_column :: string
  later_date_columns :: "string list"
  rows :: "('p, 'c, 'f) raw_row list"

definition date_columns :: "('p, 'c, 'f) raw_table \<Rightarrow> string list" where
  "date_columns df = first_date_column df # later_date_columns df"

text \<open>A row with a \<^verbatim>\<open>Date\<close> column: a label (\<open>string\<close>) after \<^verbatim>\<open>melt\<close>, a date after
  \<^verbatim>\<open>to_datetime\<close>.\<close>

record ('p, 'c, 'f, 't) dated = "('p, 'c, 'f) ident" +
  Date :: 't

text \<open>A row of a melted table; \<open>Value\<close> is the column named by \<^verbatim>\<open>value_name\<close>.\<close>

record ('p, 'c, 'f, 't) melted_row = "('p, 'c, 'f, 't) dated" +
  Value :: "int option"

text \<open>
  A row of \<^verbatim>\<open>full_data\<close>; the metrics have type \<open>int option\<close> after the merges and
  \<open>int\<close> after \<^verbatim>\<open>fillna(0)\<close>.

  The metric columns of pandas are int64, or float64 once a value is missing. The model
  computes in \<open>int\<close>. The two agree as long as every value computed is an integer of
  magnitude at most \<open>2\<^sup>5\<^sup>3\<close>: there int64 does not wrap and float64 is exact. Every
  theorem below about a sum or a difference assumes \<open>exact_range\<close> (defined with the
  transform), which keeps all values of the transform in that range, and states the
  range of the values it speaks of.
\<close>

record ('p, 'c, 'f, 't, 'v) full_row = "('p, 'c, 'f, 't) dated" +
  Confirmed :: 'v
  Deaths :: 'v
  Recovered :: 'v

text \<open>A row of the returned \<^verbatim>\<open>country_data\<close>.\<close>

record ('p, 'c, 'f, 't) country_row = "('p, 'c, 'f, 't, int) full_row" +
  Active :: int
  New_Cases :: int

datatype error = KeyError | ValueError

subsection \<open>The pandas operations the transform is built from\<close>

text \<open>
  Three operations of pandas are parameters of the model, since their results are fixed by
  the library and not by the source: the parser behind \<^verbatim>\<open>pd.to_datetime\<close>
  (\<open>None\<close> when a label does not parse; the three melted tables start with the same
  label, so a format that pandas infers from the first label is the same for the three),
  the sum of a coordinate column within a group, and the sum of an object column within a
  group. No theorem below depends on what the two sums return.
\<close>

record ('d, 'f, 'q) pandas =
  to_datetime :: "string \<Rightarrow> 'd option"
  sum_float :: "'f list \<Rightarrow> 'f"
  sum_object :: "string option list \<Rightarrow> 'q"

text \<open>
  \<^verbatim>\<open>df.melt(id_vars=[...], value_vars=..., var_name='Date', value_name=...)\<close>:
  a label of \<open>value_vars\<close> that is no column of the frame raises \<^verbatim>\<open>KeyError\<close>;
  otherwise the result lists, for each label in turn, every row of the frame.
\<close>

definition melt ::
  "('p, 'c, 'f) raw_table \<Rightarrow> string list \<Rightarrow> error + ('p, 'c, 'f, string) melted_row list" where
  "melt df value_vars =
     (if \<forall>v \<in> set value_vars. v \<in> set (date_columns df)
      then Inr (concat (map (\<lambda>v. map (\<lambda>r.
             \<lparr>Province_State = Province_State r, Country_Region = Country_Region r,
              Lat = Lat r, Long = Long r, Date = v, Value = cell r v\<rparr>) (rows df)) value_vars))
      else Inl KeyError)"

text \<open>\<^verbatim>\<open>melted['Date'] = pd.to_datetime(melted['Date'])\<close>: a label that does not parse
  raises \<^verbatim>\<open>ValueError\<close>.\<close>

fun convert_dates ::
  "(string \<Rightarrow> 'd option) \<Rightarrow> ('p, 'c, 'f, string) melted_row list
     \<Rightarrow> error + ('p, 'c, 'f, 'd) melted_row list" where
  "convert_dates f [] = Inr []"
| "convert_dates f (r # rs) =
     (case f (Date r) of
        None \<Rightarrow> Inl ValueError
      | Some t \<Rightarrow>
          (case convert_dates f rs of
             Inl e \<Rightarrow> Inl e
           | Inr rs' \<Rightarrow>
               Inr (\<lparr>Province_State = Province_State r, Country_Region = Country_Region r,
                     Lat = Lat r, Long = Long r, Date = t, Value = Value r\<rparr> # rs')))"

text \<open>The join key \<^verbatim>\<open>on=['Province/State', 'Country/Region', 'Date', 'Lat', 'Long']\<close>.\<close>

definition on_key ::
  "('p, 'c, 'f, 't, 'm) dated_scheme \<Rightarrow> 'p \<times> 'c \<times> 't \<times> 'f \<times> 'f" where
  "on_key r = (Province_State r, Country_Region r, Date r, Lat r, Long r)"

text \<open>
  The dtype of a string column that has rows: \<^verbatim>\<open>object\<close> when a cell holds a string,
  \<^verbatim>\<open>float64\<close> when every cell is empty.
\<close>

definition holds_strings :: "string option list \<Rightarrow> bool" where
  "holds_strings column \<longleftrightarrow> (\<exists>v \<in> set column. v \<noteq> None)"

text \<open>
  \<^verbatim>\<open>pd.merge\<close> checks the dtypes of each pair of key columns before it joins, unless
  exactly one of the two frames has no rows, and refuses to join an \<^verbatim>\<open>object\<close> column
  of strings with a \<^verbatim>\<open>float64\<close> column. The two frames have rows exactly when the wide
  tables they come from have rows (there is at least one date column), and every column of
  a frame without rows is \<^verbatim>\<open>object\<close>; so the check can fail only when both frames have
  rows. The date columns are both datetime and the coordinate columns both numeric.
\<close>

definition incompatible_keys ::
  "(string option, string option, 'f, 't, 'm) dated_scheme list
     \<Rightarrow> (string option, string option, 'f, 't, 'n) dated_scheme list \<Rightarrow> bool" where
  "incompatible_keys left right \<longleftrightarrow>
     left \<noteq> [] \<and> right \<noteq> [] \<and>
     (holds_strings (map Province_State left) \<noteq> holds_strings (map Province_State right)
      \<or> holds_strings (map Country_Region left) \<noteq> holds_strings (map Country_Region right))"

text \<open>
  The join of \<^verbatim>\<open>how='left'\<close>: the rows of \<open>left\<close> in their order; a left row is
  paired with every right row of the same key, in the order of \<open>right\<close>, and with
  nothing (\<open>None\<close>: the right columns are NaN) when there is none. Missing key cells
  match each other.
\<close>

definition merge_left ::
  "'a list \<Rightarrow> ('a \<Rightarrow> 'k) \<Rightarrow> 'b list \<Rightarrow> ('b \<Rightarrow> 'k) \<Rightarrow> ('a \<times> 'b option) list" where
  "merge_left left kl right kr =
     concat (map (\<lambda>l. case filter (\<lambda>r. kr r = kl l) right of
                         [] \<Rightarrow> [(l, None)]
                       | m # ms \<Rightarrow> map (\<lambda>r. (l, Some r)) (m # ms)) left)"

text \<open>
  \<^verbatim>\<open>pd.merge(left, right, on=..., how='left')\<close>: \<^verbatim>\<open>ValueError\<close> when the key columns
  are incompatible, the join otherwise. \<open>key_columns\<close> reads the key columns of a left
  row.
\<close>

definition merge ::
  "'a list \<Rightarrow> ('a \<Rightarrow> (string option, string option, 'f, 't) melted_row)
     \<Rightarrow> (string option, string option, 'f, 't) melted_row list
     \<Rightarrow> error + ('a \<times> (string option, string option, 'f, 't) melted_row option) list" where
  "merge left key_columns right =
     (if incompatible_keys (map key_columns left) right then Inl ValueError
      else Inr (merge_left left (\<lambda>l. on_key (key_columns l)) right on_key))"

text \<open>The value column a merge adds: NaN for an unmatched row.\<close>

definition right_value :: "('p, 'c, 'f, 't) melted_row option \<Rightarrow> int option" where
  "right_value m = (case m of None \<Rightarrow> None | Some r \<Rightarrow> Value r)"

text \<open>The two merges of lines 51 to 62; the key columns of the second are those of the
  confirmed table, which the first merge keeps.\<close>

definition merge_all ::
  "(string option, string option, 'f, 't) melted_row list
     \<Rightarrow> (string option, string option, 'f, 't) melted_row list
     \<Rightarrow> (string option, string option, 'f, 't) melted_row list
     \<Rightarrow> error + (string option, string option, 'f, 't, int option) full_row list" where
  "merge_all confirmed_melted deaths_melted recovered_melted =
     (case merge confirmed_melted (\<lambda>c. c) deaths_melted of
        Inl e \<Rightarrow> Inl e
      | Inr merged \<Rightarrow>
          (case merge merged fst recovered_melted of
             Inl e \<Rightarrow> Inl e
           | Inr merged' \<Rightarrow>
               Inr (map (\<lambda>((c, d), r).
                     \<lparr>Province_State = Province_State c, Country_Region = Country_Region c,
                      Lat = Lat c, Long = Long c, Date = Date c,
                      Confirmed = Value c, Deaths = right_value d,
                      Recovered = right_value r\<rparr>) merged')))"

text \<open>\<^verbatim>\<open>full_data[['Confirmed', 'Deaths', 'Recovered']].fillna(0)\<close>.\<close>

definition fillna0 :: "int option \<Rightarrow> int" where
  "fillna0 v = (case v of None \<Rightarrow> 0 | Some x \<Rightarrow> x)"

definition fillna_metrics ::
  "('p, 'c, 'f, 't, int option) full_row list \<Rightarrow> ('p, 'c, 'f, 't, int) full_row list" where
  "fillna_metrics = map (\<lambda>r.
     \<lparr>Province_State = Province_State r, Country_Region = Country_Region r,
      Lat = Lat r, Long = Long r, Date = Date r,
      Confirmed = fillna0 (Confirmed r), Deaths = fillna0 (Deaths r),
      Recovered = fillna0 (Recovered r)\<rparr>)"

text \<open>
  The keys of \<^verbatim>\<open>groupby(['Country/Region', 'Date'])\<close>, one for each row that has a
  region: \<^verbatim>\<open>dropna=True\<close> is the default, and a row without a region is in no group.
\<close>

definition group_keys ::
  "('p, string option, 'f, 't, 'm) dated_scheme list \<Rightarrow> (string \<times> 't) list" where
  "group_keys full_data =
     concat (map (\<lambda>r. case Country_Region r of
                         None \<Rightarrow> []
                       | Some c \<Rightarrow> [(c, Date r)]) full_data)"

text \<open>The key of a row of the aggregated table.\<close>

definition group_key :: "('p, 'c, 'f, 't, 'm) dated_scheme \<Rightarrow> 'c \<times> 't" where
  "group_key r = (Country_Region r, Date r)"

text \<open>
  \<^verbatim>\<open>full_data.groupby(['Country/Region', 'Date']).sum().reset_index()\<close>: one row per
  distinct key, the keys in ascending order (\<^verbatim>\<open>sort=True\<close> is the default: by
  country, then by date), every other column summed over the rows of the group in their
  order.
\<close>

definition groupby_sum ::
  "('d, 'f, 'q) pandas \<Rightarrow> (string option, string option, 'f, 'd::linorder, int) full_row list
     \<Rightarrow> ('q, string, 'f, 'd, int) full_row list" where
  "groupby_sum pd full_data =
     map (\<lambda>(c, t).
            let g = filter (\<lambda>r. Country_Region r = Some c \<and> Date r = t) full_data in
            \<lparr>Province_State = sum_object pd (map Province_State g),
             Country_Region = c,
             Lat = sum_float pd (map Lat g), Long = sum_float pd (map Long g),
             Date = t,
             Confirmed = sum_list (map Confirmed g), Deaths = sum_list (map Deaths g),
             Recovered = sum_list (map Recovered g)\<rparr>)
         (sort (remdups (group_keys full_data)))"

text \<open>
  \<^verbatim>\<open>country_data.groupby('Country/Region')['Confirmed'].diff()\<close>: each row's value
  minus the value of the previous row of the same country, NaN for the first row of a
  country. \<open>prev\<close> holds the last value seen for each country.
\<close>

fun groupby_diff :: "(string \<rightharpoonup> int) \<Rightarrow> (string \<times> int) list \<Rightarrow> int option list" where
  "groupby_diff prev [] = []"
| "groupby_diff prev ((c, v) # xs) =
     (case prev c of None \<Rightarrow> None | Some p \<Rightarrow> Some (v - p))
       # groupby_diff (prev(c \<mapsto> v)) xs"

text \<open>Lines 70 and 71: the columns \<^verbatim>\<open>Active\<close> and \<^verbatim>\<open>New Cases\<close>.\<close>

definition add_derived ::
  "('q, string, 'f, 'd, int) full_row list \<Rightarrow> ('q, string, 'f, 'd) country_row list" where
  "add_derived country_data =
     map (\<lambda>(r, n). full_row.extend r
            \<lparr>Active = Confirmed r - Deaths r - Recovered r, New_Cases = fillna0 n\<rparr>)
         (zip country_data
            (groupby_diff Map.empty (map (\<lambda>r. (Country_Region r, Confirmed r)) country_data)))"

subsection \<open>The transform\<close>

text \<open>Lines 26 to 64: \<^verbatim>\<open>full_data\<close> after the merges and \<^verbatim>\<open>fillna(0)\<close>.\<close>

definition full_data ::
  "('d, 'f, 'q) pandas \<Rightarrow> (string option, string option, 'f) raw_table
     \<Rightarrow> (string option, string option, 'f) raw_table
     \<Rightarrow> (string option, string option, 'f) raw_table
     \<Rightarrow> error + (string option, string option, 'f, 'd, int) full_row list" where
  "full_data pd confirmed_df deaths_df recovered_df =
     (let dates = date_columns confirmed_df in
      (case melt confirmed_df dates of Inl e \<Rightarrow> Inl e | Inr confirmed_melted \<Rightarrow>
      (case melt deaths_df dates of Inl e \<Rightarrow> Inl e | Inr deaths_melted \<Rightarrow>
      (case melt recovered_df dates of Inl e \<Rightarrow> Inl e | Inr recovered_melted \<Rightarrow>
      (case convert_dates (to_datetime pd) confirmed_melted of Inl e \<Rightarrow> Inl e | Inr cm \<Rightarrow>
      (case convert_dates (to_datetime pd) deaths_melted of Inl e \<Rightarrow> Inl e | Inr dm \<Rightarrow>
      (case convert_dates (to_datetime pd) recovered_melted of Inl e \<Rightarrow> Inl e | Inr rm \<Rightarrow>
      (case merge_all cm dm rm of Inl e \<Rightarrow> Inl e | Inr merged \<Rightarrow>
         Inr (fillna_metrics merged)))))))))"

text \<open>Lines 17 to 73.\<close>

definition load_data ::
  "('d::linorder, 'f, 'q) pandas \<Rightarrow> (string option, string option, 'f) raw_table
     \<Rightarrow> (string option, string option, 'f) raw_table
     \<Rightarrow> (string option, string option, 'f) raw_table
     \<Rightarrow> error + ('q, string, 'f, 'd) country_row list" where
  "load_data pd confirmed_df deaths_df recovered_df =
     (case full_data pd confirmed_df deaths_df recovered_df of
        Inl e \<Rightarrow> Inl e
      | Inr fd \<Rightarrow> Inr (add_derived (groupby_sum pd fd)))"

text \<open>
  The range in which the \<open>int\<close> of the model is the int64 and the float64 of pandas:
  the magnitudes of all counts of \<^verbatim>\<open>full_data\<close> together sum to at most \<open>2\<^sup>5\<^sup>3\<close>.
  Then every count, every partial sum within a group and every difference that lines 67 to
  71 compute is an integer of magnitude at most \<open>2\<^sup>5\<^sup>3\<close>: int64 does not wrap there, and
  float64 represents each of these integers.
\<close>

definition exact_range :: "('p, 'c, 'f, 't, int) full_row list \<Rightarrow> bool" where
  "exact_range fd \<longleftrightarrow>
     sum_list (map (\<lambda>r. \<bar>Confirmed r\<bar> + \<bar>Deaths r\<bar> + \<bar>Recovered r\<bar>) fd) \<le> 2 ^ 53"

subsection \<open>Auxiliary definitions\<close>

text \<open>
  The definitions of this subsection are not part of the transform; the proofs and the
  statements use them to describe what the transform computes. \<open>seen\<close> is the map of
  last values that \<open>groupby_diff\<close> holds after a prefix of the rows. \<open>long_table\<close> is a
  melted table after its dates are parsed, and \<open>parses\<close> says when \<^verbatim>\<open>to_datetime\<close>
  succeeds on a melted table. \<open>joined\<close> is the result of the two merges when neither
  raises, and \<open>same_key_dtypes\<close> is the condition under which a merge accepts two tables,
  read on the wide tables: one of them has no rows, or \<^verbatim>\<open>Province/State\<close> holds a string
  in both or in neither, and \<^verbatim>\<open>Country/Region\<close> likewise. \<open>id_key\<close> is the part of the
  join key that a wide row carries, and \<open>count_of table c l\<close> is the count that
  \<open>table\<close> has in column \<open>l\<close> for the identifiers of the row \<open>c\<close>: 0 when no row of
  \<open>table\<close> has these identifiers or the cell is empty.
\<close>

definition seen :: "(string \<rightharpoonup> int) \<Rightarrow> (string \<times> int) list \<Rightarrow> (string \<rightharpoonup> int)" where
  "seen prev ys = fold (\<lambda>(c, v) m. m(c \<mapsto> v)) ys prev"

definition long_table ::
  "(string \<Rightarrow> 'd option) \<Rightarrow> ('p, 'c, 'f) raw_row list \<Rightarrow> string list
     \<Rightarrow> ('p, 'c, 'f, 'd) melted_row list" where
  "long_table f rws dates =
     concat (map (\<lambda>v. case f v of
                         None \<Rightarrow> []
                       | Some t \<Rightarrow> map (\<lambda>r.
                           \<lparr>Province_State = Province_State r, Country_Region = Country_Region r,
                            Lat = Lat r, Long = Long r, Date = t, Value = cell r v\<rparr>) rws) dates)"

definition parses ::
  "(string \<Rightarrow> 'd option) \<Rightarrow> ('p, 'c, 'f) raw_table \<Rightarrow> string list \<Rightarrow> bool" where
  "parses f df dates \<longleftrightarrow> rows df = [] \<or> (\<forall>v \<in> set dates. f v \<noteq> None)"

definition joined ::
  "('p, 'c, 'f, 't) melted_row list \<Rightarrow> ('p, 'c, 'f, 't) melted_row list
     \<Rightarrow> ('p, 'c, 'f, 't) melted_row list \<Rightarrow> ('p, 'c, 'f, 't, int option) full_row list" where
  "joined cm dm rm =
     map (\<lambda>((c, d), r).
            \<lparr>Province_State = Province_State c, Country_Region = Country_Region c,
             Lat = Lat c, Long = Long c, Date = Date c,
             Confirmed = Value c, Deaths = right_value d, Recovered = right_value r\<rparr>)
         (merge_left (merge_left cm on_key dm on_key) (\<lambda>(c, d). on_key c) rm on_key)"

definition same_key_dtypes ::
  "(string option, string option, 'f) raw_table
     \<Rightarrow> (string option, string option, 'f) raw_table \<Rightarrow> bool" where
  "same_key_dtypes A B \<longleftrightarrow>
     rows A = [] \<or> rows B = [] \<or>
     (holds_strings (map Province_State (rows A)) = holds_strings (map Province_State (rows B))
      \<and> holds_strings (map Country_Region (rows A)) = holds_strings (map Country_Region (rows B)))"

definition id_key :: "('p, 'c, 'f, 'm) ident_scheme \<Rightarrow> 'p \<times> 'c \<times> 'f \<times> 'f" where
  "id_key r = (Province_State r, Country_Region r, Lat r, Long r)"

definition count_of :: "('p, 'c, 'f) raw_row list \<Rightarrow> ('p, 'c, 'f) raw_row \<Rightarrow> string \<Rightarrow> int" where
  "count_of table c l =
     fillna0 (case find (\<lambda>d. id_key d = id_key c) table of
                None \<Rightarrow> None
              | Some d \<Rightarrow> cell d l)"

subsection \<open>A worked example\<close>

text \<open>
  Three small tables. Canada has two provinces in the confirmed table; the deaths table
  has no row for Quebec and one more date column; the recovered table has a single row
  for Canada, under another key, and a row for a province of China. Belgium's confirmed
  count drops from 4 to 3. Dates are day numbers and the coordinates are whole numbers.
  Every table has a row with a province and a row without, so the \<^verbatim>\<open>Province/State\<close>
  columns all hold strings. \<open>country_level_recovered\<close> is a recovered table without any
  province: its \<^verbatim>\<open>Province/State\<close> column is float64. \<open>header_only\<close> is a table with two
  date columns and no rows.
\<close>

definition example_pandas :: "(nat, int, unit) pandas" where
  "example_pandas =
     \<lparr>to_datetime = (\<lambda>s. if s = ''1/22/20'' then Some 1
                          else if s = ''1/23/20'' then Some 2
                          else if s = ''1/24/20'' then Some 3 else None),
      sum_float = sum_list, sum_object = (\<lambda>_. ())\<rparr>"

definition ontario :: "(string option, string option, int) raw_row" where
  "ontario = \<lparr>Province_State = Some ''Ontario'', Country_Region = Some ''Canada'',
               Lat = 51, Long = - 85,
               cell = (\<lambda>_. None)(''1/22/20'' := Some 7, ''1/23/20'' := Some 9)\<rparr>"

definition quebec :: "(string option, string option, int) raw_row" where
  "quebec = \<lparr>Province_State = Some ''Quebec'', Country_Region = Some ''Canada'',
              Lat = 52, Long = - 73,
              cell = (\<lambda>_. None)(''1/22/20'' := Some 2, ''1/23/20'' := Some 3)\<rparr>"

definition belgium :: "(string option, string option, int) raw_row" where
  "belgium = \<lparr>Province_State = None, Country_Region = Some ''Belgium'', Lat = 50, Long = 4,
               cell = (\<lambda>_. None)(''1/22/20'' := Some 4, ''1/23/20'' := Some 3)\<rparr>"

definition example_confirmed :: "(string option, string option, int) raw_table" where
  "example_confirmed =
     \<lparr>first_date_column = ''1/22/20'', later_date_columns = [''1/23/20''],
      rows = [ontario, belgium, quebec]\<rparr>"

definition example_deaths :: "(string option, string option, int) raw_table" where
  "example_deaths =
     \<lparr>first_date_column = ''1/22/20'', later_date_columns = [''1/23/20'', ''1/24/20''],
      rows = [\<lparr>Province_State = Some ''Ontario'', Country_Region = Some ''Canada'',
                Lat = 51, Long = - 85,
                cell = (\<lambda>_. None)(''1/22/20'' := Some 0, ''1/23/20'' := Some 1,
                                      ''1/24/20'' := Some 5)\<rparr>,
              \<lparr>Province_State = None, Country_Region = Some ''Belgium'', Lat = 50, Long = 4,
                cell = (\<lambda>_. None)(''1/22/20'' := Some 0, ''1/23/20'' := Some 2,
                                      ''1/24/20'' := Some 2)\<rparr>]\<rparr>"

definition example_recovered :: "(string option, string option, int) raw_table" where
  "example_recovered =
     \<lparr>first_date_column = ''1/22/20'', later_date_columns = [''1/23/20''],
      rows = [\<lparr>Province_State = None, Country_Region = Some ''Canada'', Lat = 60, Long = - 95,
                cell = (\<lambda>_. None)(''1/22/20'' := Some 1, ''1/23/20'' := Some 2)\<rparr>,
              \<lparr>Province_State = None, Country_Region = Some ''Belgium'', Lat = 50, Long = 4,
                cell = (\<lambda>_. None)(''1/22/20'' := Some 0, ''1/23/20'' := Some 2)\<rparr>,
              \<lparr>Province_State = Some ''Hubei'', Country_Region = Some ''China'',
                Lat = 31, Long = 112,
                cell = (\<lambda>_. None)(''1/22/20'' := Some 28, ''1/23/20'' := Some 31)\<rparr>]\<rparr>"

definition belgium_1 :: "(unit, string, int, nat) country_row" where
  "belgium_1 = \<lparr>Province_State = (), Country_Region = ''Belgium'', Lat = 50, Long = 4,
                 Date = 1, Confirmed = 4, Deaths = 0, Recovered = 0,
                 Active = 4, New_Cases = 0\<rparr>"

definition belgium_2 :: "(unit, string, int, nat) country_row" where
  "belgium_2 = \<lparr>Province_State = (), Country_Region = ''Belgium'', Lat = 50, Long = 4,
                 Date = 2, Confirmed = 3, Deaths = 2, Recovered = 2,
                 Active = - 1, New_Cases = - 1\<rparr>"

definition canada_1 :: "(unit, string, int, nat) country_row" where
  "canada_1 = \<lparr>Province_State = (), Country_Region = ''Canada'', Lat = 103, Long = - 158,
                Date = 1, Confirmed = 9, Deaths = 0, Recovered = 0,
                Active = 9, New_Cases = 0\<rparr>"

definition canada_2 :: "(unit, string, int, nat) country_row" where
  "canada_2 = \<lparr>Province_State = (), Country_Region = ''Canada'', Lat = 103, Long = - 158,
                Date = 2, Confirmed = 12, Deaths = 1, Recovered = 0,
                Active = 11, New_Cases = 3\<rparr>"

definition example_output :: "(unit, string, int, nat) country_row list" where
  "example_output = [belgium_1, belgium_2, canada_1, canada_2]"

definition quebec_1 :: "(string option, string option, int, nat, int) full_row" where
  "quebec_1 = \<lparr>Province_State = Some ''Quebec'', Country_Region = Some ''Canada'',
                Lat = 52, Long = - 73, Date = 1, Confirmed = 2, Deaths = 0, Recovered = 0\<rparr>"

definition example_full_data :: "(string option, string option, int, nat, int) full_row list" where
  "example_full_data =
     [\<lparr>Province_State = Some ''Ontario'', Country_Region = Some ''Canada'',
        Lat = 51, Long = - 85, Date = 1, Confirmed = 7, Deaths = 0, Recovered = 0\<rparr>,
      \<lparr>Province_State = None, Country_Region = Some ''Belgium'',
        Lat = 50, Long = 4, Date = 1, Confirmed = 4, Deaths = 0, Recovered = 0\<rparr>,
      quebec_1,
      \<lparr>Province_State = Some ''Ontario'', Country_Region = Some ''Canada'',
        Lat = 51, Long = - 85, Date = 2, Confirmed = 9, Deaths = 1, Recovered = 0\<rparr>,
      \<lparr>Province_State = None, Country_Region = Some ''Belgium'',
        Lat = 50, Long = 4, Date = 2, Confirmed = 3, Deaths = 2, Recovered = 2\<rparr>,
      \<lparr>Province_State = Some ''Quebec'', Country_Region = Some ''Canada'',
        Lat = 52, Long = - 73, Date = 2, Confirmed = 3, Deaths = 0, Recovered = 0\<rparr>]"

definition country_level_recovered :: "(string option, string option, int) raw_table" where
  "country_level_recovered =
     \<lparr>first_date_column = ''1/22/20'', later_date_columns = [''1/23/20''],
      rows = [\<lparr>Province_State = None, Country_Region = Some ''Canada'', Lat = 60, Long = - 95,
                cell = (\<lambda>_. None)(''1/22/20'' := Some 1, ''1/23/20'' := Some 2)\<rparr>,
              \<lparr>Province_State = None, Country_Region = Some ''Belgium'', Lat = 50, Long = 4,
                cell = (\<lambda>_. None)(''1/22/20'' := Some 0, ''1/23/20'' := Some 2)\<rparr>]\<rparr>"

definition header_only :: "(string option, string option, int) raw_table" where
  "header_only =
     \<lparr>first_date_column = ''1/22/20'', later_date_columns = [''1/23/20''], rows = []\<rparr>"

section \<open>Properties of the pandas operations\<close>

lemma length_groupby_diff [simp]: "length (groupby_diff prev xs) = length xs"
  by (induction xs arbitrary: prev) auto

lemma length_add_derived [simp]: "length (add_derived cd) = length cd"
  by (simp add: add_derived_def)

lemma add_derived_nth:
  assumes "i < length cd"
  shows "Country_Region (add_derived cd ! i) = Country_Region (cd ! i)"
    and "Date (add_derived cd ! i) = Date (cd ! i)"
    and "Lat (add_derived cd ! i) = Lat (cd ! i)"
    and "Long (add_derived cd ! i) = Long (cd ! i)"
    and "Confirmed (add_derived cd ! i) = Confirmed (cd ! i)"
    and "Deaths (add_derived cd ! i) = Deaths (cd ! i)"
    and "Recovered (add_derived cd ! i) = Recovered (cd ! i)"
    and "New_Cases (add_derived cd ! i) =
           fillna0 (groupby_diff Map.empty (map (\<lambda>r. (Country_Region r, Confirmed r)) cd) ! i)"
  using assms by (simp_all add: add_derived_def full_row.extend_def)

lemma map_group_key_add_derived: "map group_key (add_derived cd) = map group_key cd"
  by (rule nth_equalityI) (simp_all add: group_key_def add_derived_nth)

lemma map_group_key_groupby_sum:
  "map group_key (groupby_sum pd fd) = sort (remdups (group_keys fd))"
proof -
  have "map group_key (groupby_sum pd fd) = map (\<lambda>k. k) (sort (remdups (group_keys fd)))"
    unfolding groupby_sum_def map_map
    by (rule map_cong) (auto simp: group_key_def Let_def)
  then show ?thesis by simp
qed

lemma seen_simps [simp]:
  "seen prev [] = prev"
  "seen prev ((c, v) # ys) = seen (prev(c \<mapsto> v)) ys"
  "seen prev (ys @ [(c, v)]) = (seen prev ys)(c \<mapsto> v)"
  by (simp_all add: seen_def)

lemma seen_other: "c \<notin> fst ` set ys \<Longrightarrow> seen prev ys c = prev c"
  by (induction ys arbitrary: prev) auto

lemma groupby_diff_nth:
  "i < length xs \<Longrightarrow>
     groupby_diff prev xs ! i =
       map_option (\<lambda>p. snd (xs ! i) - p) (seen prev (take i xs) (fst (xs ! i)))"
proof (induction xs arbitrary: prev i)
  case Nil
  then show ?case by simp
next
  case (Cons x xs)
  obtain c v where x: "x = (c, v)" by (cases x)
  show ?case
  proof (cases i)
    case 0
    then show ?thesis by (simp add: x split: option.split)
  next
    case (Suc j)
    with Cons.prems have "j < length xs" by simp
    then have "groupby_diff (prev(c \<mapsto> v)) xs ! j =
       map_option (\<lambda>p. snd (xs ! j) - p) (seen (prev(c \<mapsto> v)) (take j xs) (fst (xs ! j)))"
      by (rule Cons.IH)
    then show ?thesis
      by (simp add: x Suc)
  qed
qed

lemma sorted_map_fst:
  fixes ks :: "('a::linorder \<times> 'b::linorder) list"
  assumes "sorted ks"
  shows "sorted (map fst ks)"
proof -
  have "sorted_wrt (\<lambda>x y. fst x \<le> fst y) ks"
    using assms by (rule sorted_wrt_mono_rel [rotated]) (auto simp: less_eq_prod_def)
  then show ?thesis by (simp add: sorted_map)
qed

lemma new_cases_nth:
  assumes srt: "sorted (map Country_Region cd)" and i: "i < length cd"
  shows "New_Cases (add_derived cd ! i) =
           (if i = 0 \<or> Country_Region (cd ! (i - 1)) \<noteq> Country_Region (cd ! i) then 0
            else Confirmed (cd ! i) - Confirmed (cd ! (i - 1)))"
proof -
  let ?xs = "map (\<lambda>r. (Country_Region r, Confirmed r)) cd"
  have nc: "New_Cases (add_derived cd ! i) =
      fillna0 (map_option (\<lambda>p. Confirmed (cd ! i) - p)
                 (seen Map.empty (take i ?xs) (Country_Region (cd ! i))))"
    using i by (simp add: add_derived_nth groupby_diff_nth)
  show ?thesis
  proof (cases i)
    case 0
    then show ?thesis using nc by (simp add: fillna0_def)
  next
    case (Suc j)
    then have j: "j < length cd" using i by simp
    have tk: "take i ?xs = take j ?xs @ [(Country_Region (cd ! j), Confirmed (cd ! j))]"
      using j by (simp add: Suc take_Suc_conv_app_nth)
    show ?thesis
    proof (cases "Country_Region (cd ! j) = Country_Region (cd ! i)")
      case True
      have "seen Map.empty (take i ?xs) (Country_Region (cd ! i)) = Some (Confirmed (cd ! j))"
        unfolding tk by (simp add: True)
      with nc have "New_Cases (add_derived cd ! i) = Confirmed (cd ! i) - Confirmed (cd ! j)"
        by (simp add: fillna0_def)
      then show ?thesis using True by (simp add: Suc)
    next
      case False
      have "Country_Region (cd ! i) \<notin> fst ` set (take i ?xs)"
      proof
        assume "Country_Region (cd ! i) \<in> fst ` set (take i ?xs)"
        then obtain k where k: "k < i" and eq: "Country_Region (cd ! k) = Country_Region (cd ! i)"
          using i by (auto simp: in_set_conv_nth)
        have "Country_Region (cd ! k) \<le> Country_Region (cd ! j)"
          using sorted_nth_mono [OF srt, of k j] k j Suc by simp
        moreover have "Country_Region (cd ! j) \<le> Country_Region (cd ! i)"
          using sorted_nth_mono [OF srt, of j i] i Suc by simp
        ultimately show False using eq False by simp
      qed
      then have "seen Map.empty (take i ?xs) (Country_Region (cd ! i)) = None"
        by (simp add: seen_other)
      with nc have "New_Cases (add_derived cd ! i) = 0"
        by (simp add: fillna0_def)
      then show ?thesis using False by (simp add: Suc)
    qed
  qed
qed

lemma load_data_Inr:
  "load_data pd C D R = Inr out \<Longrightarrow>
     \<exists>fd. full_data pd C D R = Inr fd \<and> out = add_derived (groupby_sum pd fd)"
  by (auto simp: load_data_def split: sum.splits)

lemma keys_groupby_sum:
  "sorted (map group_key (groupby_sum pd fd))"
  "distinct (map group_key (groupby_sum pd fd))"
  "set (map group_key (groupby_sum pd fd)) = set (group_keys fd)"
  by (simp_all add: map_group_key_groupby_sum)

lemma countries_sorted: "sorted (map Country_Region (groupby_sum pd fd))"
proof -
  have "sorted (map fst (map group_key (groupby_sum pd fd)))"
    by (rule sorted_map_fst) (rule keys_groupby_sum)
  then show ?thesis by (simp add: comp_def group_key_def)
qed

lemma strict_keys:
  assumes "i < j" "j < length (groupby_sum pd fd)"
  shows "group_key (groupby_sum pd fd ! i) < group_key (groupby_sum pd fd ! j)"
proof -
  let ?ks = "map group_key (groupby_sum pd fd)"
  have "sorted_wrt (<) ?ks"
    using keys_groupby_sum(1,2) [of pd fd] by (simp add: strict_sorted_iff)
  from sorted_wrt_nth_less [OF this, of i j] have "?ks ! i < ?ks ! j"
    using assms by simp
  then show ?thesis using assms by simp
qed

lemma new_cases_adjacent:
  assumes run: "load_data pd C D R = Inr out"
    and o: "r \<in> set out" and p: "p \<in> set out"
    and same: "Country_Region p = Country_Region r"
    and before: "Date p < Date r"
    and adjacent: "\<forall>q \<in> set out. Country_Region q = Country_Region r \<longrightarrow>
                       \<not> (Date p < Date q \<and> Date q < Date r)"
  shows "New_Cases r = Confirmed r - Confirmed p"
proof -
  obtain fd where out: "out = add_derived (groupby_sum pd fd)"
    using load_data_Inr [OF run] by blast
  let ?cd = "groupby_sum pd fd"
  from o obtain i where i: "i < length ?cd" and r: "r = out ! i"
    by (auto simp: out in_set_conv_nth)
  from p obtain j where j: "j < length ?cd" and pj: "p = out ! j"
    by (auto simp: out in_set_conv_nth)
  have key: "group_key (out ! k) = group_key (?cd ! k)" if "k < length ?cd" for k
    using that by (simp add: out group_key_def add_derived_nth)
  have "group_key p < group_key r"
    using same before by (simp add: group_key_def less_prod_def')
  then have lt: "group_key (?cd ! j) < group_key (?cd ! i)"
    using i j by (simp add: r pj key)
  have ji: "j < i"
  proof (rule ccontr)
    assume "\<not> j < i"
    then have "i = j \<or> i < j" by auto
    then show False
      using lt strict_keys [of i j pd fd] j by (auto simp: less_le_not_le)
  qed
  then have pos: "0 < i" by simp
  let ?q = "out ! (i - 1)"
  have qi: "group_key (?cd ! (i - 1)) < group_key (?cd ! i)"
    using pos i by (intro strict_keys) auto
  have jq: "group_key (?cd ! j) \<le> group_key (?cd ! (i - 1))"
  proof (cases "j = i - 1")
    case True
    then show ?thesis by simp
  next
    case False
    then have "j < i - 1" using ji by simp
    moreover have "i - 1 < length ?cd" using i by simp
    ultimately have "group_key (?cd ! j) < group_key (?cd ! (i - 1))"
      by (rule strict_keys)
    then show ?thesis by (rule less_imp_le)
  qed
  have kq: "group_key ?q = group_key (?cd ! (i - 1))" using i by (intro key) simp
  have kr: "group_key r = group_key (?cd ! i)" using i by (simp add: r key)
  have kp: "group_key p = group_key (?cd ! j)" using j by (simp add: pj key)
  have cq: "Country_Region ?q = Country_Region r"
    using qi jq same unfolding kq [symmetric] kr [symmetric] kp [symmetric]
    by (auto simp: group_key_def less_prod_def' less_eq_prod_def)
  have dq: "Date p \<le> Date ?q" "Date ?q < Date r"
    using qi jq same cq unfolding kq [symmetric] kr [symmetric] kp [symmetric]
    by (auto simp: group_key_def less_prod_def' less_eq_prod_def)
  have "?q \<in> set out" using i by (simp add: out)
  with adjacent cq dq have "Date ?q = Date p" by force
  with cq same have eq: "group_key (?cd ! (i - 1)) = group_key (?cd ! j)"
    unfolding kq [symmetric] kp [symmetric] by (simp add: group_key_def)
  have "i - 1 = j"
  proof (rule ccontr)
    assume "i - 1 \<noteq> j"
    then have "j < i - 1" using ji by simp
    moreover have "i - 1 < length ?cd" using i by simp
    ultimately have "group_key (?cd ! j) < group_key (?cd ! (i - 1))"
      by (rule strict_keys)
    then show False using eq by simp
  qed
  have "New_Cases r =
      (if i = 0 \<or> Country_Region (?cd ! (i - 1)) \<noteq> Country_Region (?cd ! i) then 0
       else Confirmed (?cd ! i) - Confirmed (?cd ! (i - 1)))"
    unfolding r out by (rule new_cases_nth [OF countries_sorted i])
  moreover have "Country_Region (?cd ! (i - 1)) = Country_Region (?cd ! i)"
    using cq i by (simp add: out r add_derived_nth)
  ultimately show ?thesis
    using pos i j \<open>i - 1 = j\<close> by (simp add: out r pj add_derived_nth)
qed

lemma convert_dates_append:
  "convert_dates f (xs @ ys) =
     (case convert_dates f xs of
        Inl e \<Rightarrow> Inl e
      | Inr xs' \<Rightarrow> (case convert_dates f ys of Inl e \<Rightarrow> Inl e | Inr ys' \<Rightarrow> Inr (xs' @ ys')))"
  by (induction xs) (auto split: option.splits sum.splits)

lemma convert_dates_error: "convert_dates f xs = Inl e \<Longrightarrow> e = ValueError"
  by (induction xs arbitrary: e) (auto split: option.splits sum.splits)

lemma convert_dates_column:
  "convert_dates f (map (\<lambda>r.
       \<lparr>Province_State = Province_State r, Country_Region = Country_Region r,
        Lat = Lat r, Long = Long r, Date = v, Value = cell r v\<rparr>) rws) =
     (if rws = [] then Inr []
      else case f v of
             None \<Rightarrow> Inl ValueError
           | Some t \<Rightarrow> Inr (map (\<lambda>r.
               \<lparr>Province_State = Province_State r, Country_Region = Country_Region r,
                Lat = Lat r, Long = Long r, Date = t, Value = cell r v\<rparr>) rws))"
  by (induction rws) (auto split: option.splits sum.splits)

lemma convert_dates_melted:
  "convert_dates f (concat (map (\<lambda>v. map (\<lambda>r.
       \<lparr>Province_State = Province_State r, Country_Region = Country_Region r,
        Lat = Lat r, Long = Long r, Date = v, Value = cell r v\<rparr>) rws) dates)) =
     (if rws = [] \<or> (\<forall>v \<in> set dates. f v \<noteq> None) then Inr (long_table f rws dates)
      else Inl ValueError)"
proof (induction dates)
  case Nil
  then show ?case by (simp add: long_table_def)
next
  case (Cons v dates)
  have lt: "long_table f rws (v # dates) =
      (case f v of None \<Rightarrow> [] | Some t \<Rightarrow> map (\<lambda>r.
         \<lparr>Province_State = Province_State r, Country_Region = Country_Region r,
          Lat = Lat r, Long = Long r, Date = t, Value = cell r v\<rparr>) rws) @ long_table f rws dates"
    by (simp add: long_table_def)
  show ?case
    using Cons.IH
    by (auto simp add: convert_dates_append convert_dates_column lt
        split: option.splits sum.splits if_splits)
qed

lemma set_merge_left:
  "set (merge_left L kl Rt kr) =
     {(l, x). l \<in> set L \<and>
        (case x of None \<Rightarrow> \<forall>r \<in> set Rt. kr r \<noteq> kl l
                 | Some r \<Rightarrow> r \<in> set Rt \<and> kr r = kl l)}"
proof -
  have one: "set (case filter (\<lambda>r. kr r = kl l) Rt of
                    [] \<Rightarrow> [(l, None)]
                  | m # ms \<Rightarrow> map (\<lambda>r. (l, Some r)) (m # ms)) =
      {(l', x). l' = l \<and>
         (case x of None \<Rightarrow> \<forall>r \<in> set Rt. kr r \<noteq> kl l
                  | Some r \<Rightarrow> r \<in> set Rt \<and> kr r = kl l)}" for l
  proof (cases "filter (\<lambda>r. kr r = kl l) Rt")
    case Nil
    then have "\<forall>r \<in> set Rt. kr r \<noteq> kl l" by (simp add: filter_empty_conv)
    then show ?thesis using Nil by (auto split: option.splits)
  next
    case (Cons m ms)
    then have "set (m # ms) = {r \<in> set Rt. kr r = kl l}"
      by (metis set_filter)
    then show ?thesis using Cons by (auto split: option.splits)
  qed
  show ?thesis
    unfolding merge_left_def set_concat set_map by (auto simp: one)
qed

lemma merge_left_eq_Nil [simp]: "merge_left L kl Rt kr = [] \<longleftrightarrow> L = []"
proof (cases L)
  case Nil
  then show ?thesis by (simp add: merge_left_def)
next
  case (Cons l L')
  then show ?thesis
    by (cases "filter (\<lambda>r. kr r = kl l) Rt") (simp_all add: merge_left_def)
qed

lemma fst_set_merge_left: "fst ` set (merge_left L kl Rt kr) = set L"
proof (intro set_eqI iffI)
  fix l assume "l \<in> fst ` set (merge_left L kl Rt kr)"
  then show "l \<in> set L" by (auto simp: set_merge_left)
next
  fix l assume l: "l \<in> set L"
  show "l \<in> fst ` set (merge_left L kl Rt kr)"
  proof (cases "\<exists>r \<in> set Rt. kr r = kl l")
    case True
    then obtain r where "r \<in> set Rt" "kr r = kl l" by blast
    then have "(l, Some r) \<in> set (merge_left L kl Rt kr)"
      using l by (simp add: set_merge_left)
    then show ?thesis by force
  next
    case False
    then have "(l, None) \<in> set (merge_left L kl Rt kr)"
      using l by (simp add: set_merge_left)
    then show ?thesis by force
  qed
qed

lemma incompatible_keys_cong:
  assumes "set left = set left'"
  shows "incompatible_keys left right = incompatible_keys left' right"
proof -
  have "left = [] \<longleftrightarrow> left' = []" using assms by (metis set_empty)
  moreover have "set (map Province_State left) = set (map Province_State left')"
    "set (map Country_Region left) = set (map Country_Region left')"
    using assms by simp_all
  ultimately show ?thesis
    unfolding incompatible_keys_def holds_strings_def by simp
qed

lemma incompatible_keys_merged:
  "incompatible_keys (map fst (merge_left cm kl dm kr)) rm = incompatible_keys cm rm"
  by (rule incompatible_keys_cong) (simp add: fst_set_merge_left)

lemma merge_all_eq:
  "merge_all cm dm rm =
     (if incompatible_keys cm dm \<or> incompatible_keys cm rm then Inl ValueError
      else Inr (joined cm dm rm))"
proof -
  have e: "(\<lambda>l. on_key (fst l)) = (\<lambda>(c, d). on_key c)" by auto
  show ?thesis
    unfolding merge_all_def merge_def joined_def e
    by (simp add: incompatible_keys_merged)
qed

lemma in_long_table:
  "m \<in> set (long_table f rws dates) \<longleftrightarrow>
     (\<exists>r \<in> set rws. \<exists>l \<in> set dates. \<exists>t. f l = Some t \<and>
        m = \<lparr>Province_State = Province_State r, Country_Region = Country_Region r,
              Lat = Lat r, Long = Long r, Date = t, Value = cell r l\<rparr>)"
proof
  assume "m \<in> set (long_table f rws dates)"
  then obtain l where l: "l \<in> set dates"
    and m: "m \<in> set (case f l of None \<Rightarrow> [] | Some t \<Rightarrow> map (\<lambda>r.
              \<lparr>Province_State = Province_State r, Country_Region = Country_Region r,
               Lat = Lat r, Long = Long r, Date = t, Value = cell r l\<rparr>) rws)"
    by (auto simp: long_table_def)
  then obtain t where t: "f l = Some t" by (cases "f l") auto
  with m obtain r where "r \<in> set rws"
    "m = \<lparr>Province_State = Province_State r, Country_Region = Country_Region r,
          Lat = Lat r, Long = Long r, Date = t, Value = cell r l\<rparr>"
    by auto
  with l t show "\<exists>r \<in> set rws. \<exists>l \<in> set dates. \<exists>t. f l = Some t \<and>
        m = \<lparr>Province_State = Province_State r, Country_Region = Country_Region r,
              Lat = Lat r, Long = Long r, Date = t, Value = cell r l\<rparr>"
    by blast
next
  assume "\<exists>r \<in> set rws. \<exists>l \<in> set dates. \<exists>t. f l = Some t \<and>
        m = \<lparr>Province_State = Province_State r, Country_Region = Country_Region r,
              Lat = Lat r, Long = Long r, Date = t, Value = cell r l\<rparr>"
  then obtain r l t where r: "r \<in> set rws" and l: "l \<in> set dates" and t: "f l = Some t"
    and m: "m = \<lparr>Province_State = Province_State r, Country_Region = Country_Region r,
              Lat = Lat r, Long = Long r, Date = t, Value = cell r l\<rparr>"
    by blast
  have "m \<in> set (case f l of None \<Rightarrow> [] | Some t \<Rightarrow> map (\<lambda>r.
              \<lparr>Province_State = Province_State r, Country_Region = Country_Region r,
               Lat = Lat r, Long = Long r, Date = t, Value = cell r l\<rparr>) rws)"
    using r t m by simp
  with l show "m \<in> set (long_table f rws dates)"
    unfolding long_table_def set_concat set_map by blast
qed

lemma long_table_eq_Nil:
  assumes "dates \<noteq> []" and "\<forall>v \<in> set dates. f v \<noteq> None"
  shows "long_table f rws dates = [] \<longleftrightarrow> rws = []"
proof
  obtain v where v: "v \<in> set dates" using assms(1) by (cases dates) auto
  with assms(2) obtain t where t: "f v = Some t" by auto
  assume e: "long_table f rws dates = []"
  show "rws = []"
  proof (rule ccontr)
    assume "rws \<noteq> []"
    then obtain r where "r \<in> set rws" by (cases rws) auto
    then have "\<lparr>Province_State = Province_State r, Country_Region = Country_Region r,
                Lat = Lat r, Long = Long r, Date = t, Value = cell r v\<rparr>
                 \<in> set (long_table f rws dates)"
      unfolding in_long_table using v t by blast
    with e show False by simp
  qed
next
  assume "rws = []"
  then show "long_table f rws dates = []"
    by (auto simp: long_table_def split: option.split)
qed

lemma ident_set_long_table:
  assumes "dates \<noteq> []" and "\<forall>v \<in> set dates. f v \<noteq> None"
  shows "Province_State ` set (long_table f rws dates) = Province_State ` set rws"
    and "Country_Region ` set (long_table f rws dates) = Country_Region ` set rws"
proof -
  obtain v where v: "v \<in> set dates" using assms(1) by (cases dates) auto
  with assms(2) obtain t where t: "f v = Some t" by auto
  have mem: "\<lparr>Province_State = Province_State r, Country_Region = Country_Region r,
               Lat = Lat r, Long = Long r, Date = t, Value = cell r v\<rparr>
               \<in> set (long_table f rws dates)" if "r \<in> set rws" for r
    unfolding in_long_table using v t that by blast
  show "Province_State ` set (long_table f rws dates) = Province_State ` set rws"
  proof (intro set_eqI iffI)
    fix p assume "p \<in> Province_State ` set (long_table f rws dates)"
    then obtain m where "m \<in> set (long_table f rws dates)" and p: "p = Province_State m"
      by blast
    then obtain r where "r \<in> set rws" "Province_State m = Province_State r"
      unfolding in_long_table by auto
    then show "p \<in> Province_State ` set rws" using p by simp
  next
    fix p assume "p \<in> Province_State ` set rws"
    then obtain r where r: "r \<in> set rws" and p: "p = Province_State r" by blast
    have "Province_State \<lparr>Province_State = Province_State r, Country_Region = Country_Region r,
               Lat = Lat r, Long = Long r, Date = t, Value = cell r v\<rparr> = p"
      by (simp add: p)
    with mem [OF r] show "p \<in> Province_State ` set (long_table f rws dates)"
      by (metis imageI)
  qed
  show "Country_Region ` set (long_table f rws dates) = Country_Region ` set rws"
  proof (intro set_eqI iffI)
    fix p assume "p \<in> Country_Region ` set (long_table f rws dates)"
    then obtain m where "m \<in> set (long_table f rws dates)" and p: "p = Country_Region m"
      by blast
    then obtain r where "r \<in> set rws" "Country_Region m = Country_Region r"
      unfolding in_long_table by auto
    then show "p \<in> Country_Region ` set rws" using p by simp
  next
    fix p assume "p \<in> Country_Region ` set rws"
    then obtain r where r: "r \<in> set rws" and p: "p = Country_Region r" by blast
    have "Country_Region \<lparr>Province_State = Province_State r, Country_Region = Country_Region r,
               Lat = Lat r, Long = Long r, Date = t, Value = cell r v\<rparr> = p"
      by (simp add: p)
    with mem [OF r] show "p \<in> Country_Region ` set (long_table f rws dates)"
      by (metis imageI)
  qed
qed

lemma incompatible_keys_long_table:
  assumes "parses f A dates" and "parses f B dates" and "dates \<noteq> []"
  shows "incompatible_keys (long_table f (rows A) dates) (long_table f (rows B) dates)
           \<longleftrightarrow> \<not> same_key_dtypes A B"
proof (cases "rows A = [] \<or> rows B = []")
  case True
  then have "long_table f (rows A) dates = [] \<or> long_table f (rows B) dates = []"
    by (auto simp: long_table_def split: option.splits)
  then show ?thesis using True by (auto simp: incompatible_keys_def same_key_dtypes_def)
next
  case False
  then have all: "\<forall>v \<in> set dates. f v \<noteq> None"
    using assms(1) by (simp add: parses_def)
  have ne: "long_table f (rows A) dates \<noteq> []" "long_table f (rows B) dates \<noteq> []"
    using False long_table_eq_Nil [OF assms(3) all] by auto
  show ?thesis
    unfolding incompatible_keys_def same_key_dtypes_def holds_strings_def set_map
    using False ne
    by (simp add: ident_set_long_table [OF assms(3) all])
qed

lemma date_columns_not_Nil [simp]: "date_columns C \<noteq> []"
  by (simp add: date_columns_def)

lemma full_data_eq:
  fixes C :: "(string option, string option, 'f) raw_table"
  shows "full_data pd C D R =
     (if \<not> (set (date_columns C) \<subseteq> set (date_columns D)
             \<and> set (date_columns C) \<subseteq> set (date_columns R)) then Inl KeyError
      else if \<not> (parses (to_datetime pd) C (date_columns C)
                  \<and> parses (to_datetime pd) D (date_columns C)
                  \<and> parses (to_datetime pd) R (date_columns C)) then Inl ValueError
      else if \<not> (same_key_dtypes C D \<and> same_key_dtypes C R) then Inl ValueError
      else Inr (fillna_metrics (joined
                  (long_table (to_datetime pd) (rows C) (date_columns C))
                  (long_table (to_datetime pd) (rows D) (date_columns C))
                  (long_table (to_datetime pd) (rows R) (date_columns C)))))"
proof -
  let ?f = "to_datetime pd" and ?ds = "date_columns C"
  have conv: "convert_dates ?f (concat (map (\<lambda>v. map (\<lambda>r.
       \<lparr>Province_State = Province_State r, Country_Region = Country_Region r,
        Lat = Lat r, Long = Long r, Date = v, Value = cell r v\<rparr>) (rows df)) ?ds)) =
     (if parses ?f df ?ds then Inr (long_table ?f (rows df) ?ds) else Inl ValueError)"
    for df :: "(string option, string option, 'f) raw_table"
    unfolding parses_def by (rule convert_dates_melted)
  have mC: "melt C ?ds = Inr (concat (map (\<lambda>v. map (\<lambda>r.
       \<lparr>Province_State = Province_State r, Country_Region = Country_Region r,
        Lat = Lat r, Long = Long r, Date = v, Value = cell r v\<rparr>) (rows C)) ?ds))"
    by (simp add: melt_def)
  show ?thesis
  proof (cases "set ?ds \<subseteq> set (date_columns D) \<and> set ?ds \<subseteq> set (date_columns R)")
    case False
    have "full_data pd C D R = Inl KeyError"
    proof (cases "set ?ds \<subseteq> set (date_columns D)")
      case False
      then have "melt D ?ds = Inl KeyError" by (auto simp: melt_def)
      then show ?thesis unfolding full_data_def Let_def mC by simp
    next
      case True
      then have "melt D ?ds = Inr (concat (map (\<lambda>v. map (\<lambda>r.
         \<lparr>Province_State = Province_State r, Country_Region = Country_Region r,
          Lat = Lat r, Long = Long r, Date = v, Value = cell r v\<rparr>) (rows D)) ?ds))"
        by (auto simp: melt_def)
      moreover have "melt R ?ds = Inl KeyError"
        using True \<open>\<not> (set ?ds \<subseteq> set (date_columns D) \<and> set ?ds \<subseteq> set (date_columns R))\<close>
        by (auto simp: melt_def)
      ultimately show ?thesis unfolding full_data_def Let_def mC by simp
    qed
    then show ?thesis using False by simp
  next
    case True
    then have mD: "melt D ?ds = Inr (concat (map (\<lambda>v. map (\<lambda>r.
       \<lparr>Province_State = Province_State r, Country_Region = Country_Region r,
        Lat = Lat r, Long = Long r, Date = v, Value = cell r v\<rparr>) (rows D)) ?ds))"
      and mR: "melt R ?ds = Inr (concat (map (\<lambda>v. map (\<lambda>r.
       \<lparr>Province_State = Province_State r, Country_Region = Country_Region r,
        Lat = Lat r, Long = Long r, Date = v, Value = cell r v\<rparr>) (rows R)) ?ds))"
      by (auto simp: melt_def)
    show ?thesis
    proof (cases "parses ?f C ?ds \<and> parses ?f D ?ds \<and> parses ?f R ?ds")
      case False
      then show ?thesis
        unfolding full_data_def Let_def mC mD mR sum.case conv
        using True by auto
    next
      case P: True
      have "incompatible_keys (long_table ?f (rows C) ?ds) (long_table ?f (rows D) ?ds)
              \<longleftrightarrow> \<not> same_key_dtypes C D"
        and "incompatible_keys (long_table ?f (rows C) ?ds) (long_table ?f (rows R) ?ds)
              \<longleftrightarrow> \<not> same_key_dtypes C R"
        using P by (simp_all add: incompatible_keys_long_table)
      then show ?thesis
        unfolding full_data_def Let_def mC mD mR sum.case conv merge_all_eq
        using True P by auto
    qed
  qed
qed

lemma in_joined:
  "m \<in> set (joined cm dm rm) \<longleftrightarrow>
     (\<exists>c d r. c \<in> set cm
        \<and> (case d of None \<Rightarrow> \<forall>x \<in> set dm. on_key x \<noteq> on_key c
                    | Some x \<Rightarrow> x \<in> set dm \<and> on_key x = on_key c)
        \<and> (case r of None \<Rightarrow> \<forall>x \<in> set rm. on_key x \<noteq> on_key c
                    | Some x \<Rightarrow> x \<in> set rm \<and> on_key x = on_key c)
        \<and> m = \<lparr>Province_State = Province_State c, Country_Region = Country_Region c,
                 Lat = Lat c, Long = Long c, Date = Date c,
                 Confirmed = Value c, Deaths = right_value d, Recovered = right_value r\<rparr>)"
  unfolding joined_def set_map set_merge_left
  by (auto simp: image_iff split: prod.splits)

lemma in_fillna_metrics:
  "m \<in> set (fillna_metrics xs) \<longleftrightarrow>
     (\<exists>x \<in> set xs. m = \<lparr>Province_State = Province_State x, Country_Region = Country_Region x,
                          Lat = Lat x, Long = Long x, Date = Date x,
                          Confirmed = fillna0 (Confirmed x), Deaths = fillna0 (Deaths x),
                          Recovered = fillna0 (Recovered x)\<rparr>)"
  by (auto simp: fillna_metrics_def)

lemma group_key_long_table:
  "group_key ` set (long_table f rws dates) =
     {(Country_Region r, t) | r l t. r \<in> set rws \<and> l \<in> set dates \<and> f l = Some t}"
proof (intro set_eqI iffI)
  fix k assume "k \<in> group_key ` set (long_table f rws dates)"
  then obtain m where "m \<in> set (long_table f rws dates)" and k: "k = group_key m" by blast
  then obtain r l t where "r \<in> set rws" "l \<in> set dates" "f l = Some t"
    "m = \<lparr>Province_State = Province_State r, Country_Region = Country_Region r,
          Lat = Lat r, Long = Long r, Date = t, Value = cell r l\<rparr>"
    unfolding in_long_table by blast
  moreover from this have "k = (Country_Region r, t)" by (simp add: k group_key_def)
  ultimately show "k \<in> {(Country_Region r, t) | r l t. r \<in> set rws \<and> l \<in> set dates \<and> f l = Some t}"
    by blast
next
  fix k assume "k \<in> {(Country_Region r, t) | r l t. r \<in> set rws \<and> l \<in> set dates \<and> f l = Some t}"
  then obtain r l t where k: "k = (Country_Region r, t)"
    and r: "r \<in> set rws" and l: "l \<in> set dates" and t: "f l = Some t"
    by blast
  let ?m = "\<lparr>Province_State = Province_State r, Country_Region = Country_Region r,
              Lat = Lat r, Long = Long r, Date = t, Value = cell r l\<rparr>"
  have "?m \<in> set (long_table f rws dates)"
    unfolding in_long_table using r l t by blast
  moreover have "group_key ?m = k" by (simp add: group_key_def k)
  ultimately show "k \<in> group_key ` set (long_table f rws dates)" by (metis imageI)
qed

lemma group_key_joined:
  "group_key ` set (joined cm dm rm) = group_key ` set cm"
proof -
  have "group_key ` set (joined cm dm rm) =
      (\<lambda>((c, d), r). group_key c) `
        set (merge_left (merge_left cm on_key dm on_key) (\<lambda>(c, d). on_key c) rm on_key)"
    unfolding joined_def set_map image_image
    by (rule image_cong) (auto simp: group_key_def)
  also have "\<dots> = (\<lambda>(c, d). group_key c) `
      fst ` set (merge_left (merge_left cm on_key dm on_key) (\<lambda>(c, d). on_key c) rm on_key)"
    unfolding image_image by (rule image_cong) auto
  also have "\<dots> = (\<lambda>(c, d). group_key c) ` set (merge_left cm on_key dm on_key)"
    by (simp only: fst_set_merge_left)
  also have "\<dots> = group_key ` fst ` set (merge_left cm on_key dm on_key)"
    unfolding image_image by (rule image_cong) auto
  also have "\<dots> = group_key ` set cm"
    by (simp only: fst_set_merge_left)
  finally show ?thesis .
qed

lemma group_key_fillna_metrics:
  "group_key ` set (fillna_metrics xs) = group_key ` set xs"
  by (simp add: fillna_metrics_def image_image group_key_def)

lemma full_data_Inr:
  assumes "full_data pd C D R = Inr fd"
  shows "fd = fillna_metrics (joined
                  (long_table (to_datetime pd) (rows C) (date_columns C))
                  (long_table (to_datetime pd) (rows D) (date_columns C))
                  (long_table (to_datetime pd) (rows R) (date_columns C)))"
    and "parses (to_datetime pd) C (date_columns C)"
    and "parses (to_datetime pd) D (date_columns C)"
    and "parses (to_datetime pd) R (date_columns C)"
    and "same_key_dtypes C D" and "same_key_dtypes C R"
  using assms unfolding full_data_eq by (auto split: if_splits)

lemma group_key_full_data:
  assumes "full_data pd C D R = Inr fd"
  shows "group_key ` set fd =
     {(Country_Region r, t) | r l t.
        r \<in> set (rows C) \<and> l \<in> set (date_columns C) \<and> to_datetime pd l = Some t}"
  unfolding full_data_Inr(1) [OF assms] group_key_fillna_metrics group_key_joined
  by (rule group_key_long_table)

lemma set_group_keys:
  "set (group_keys xs) = {(c, t). (Some c, t) \<in> group_key ` set xs}"
proof (intro set_eqI iffI)
  fix k assume "k \<in> set (group_keys xs)"
  then obtain r where r: "r \<in> set xs"
    and k: "k \<in> set (case Country_Region r of None \<Rightarrow> [] | Some c \<Rightarrow> [(c, Date r)])"
    by (auto simp: group_keys_def)
  then obtain c where c: "Country_Region r = Some c" by (cases "Country_Region r") auto
  with k have "k = (c, Date r)" by simp
  moreover have "(Some c, Date r) = group_key r" by (simp add: group_key_def c)
  ultimately show "k \<in> {(c, t). (Some c, t) \<in> group_key ` set xs}" using r by auto
next
  fix k assume "k \<in> {(c, t). (Some c, t) \<in> group_key ` set xs}"
  then obtain c t r where k: "k = (c, t)" and r: "r \<in> set xs"
    and e: "(Some c, t) = group_key r"
    by auto
  then have "Country_Region r = Some c" "Date r = t" by (simp_all add: group_key_def)
  then have "k \<in> set (case Country_Region r of None \<Rightarrow> [] | Some c \<Rightarrow> [(c, Date r)])"
    by (simp add: k)
  with r show "k \<in> set (group_keys xs)"
    unfolding group_keys_def set_concat set_map by blast
qed

lemma group_keys_full_data:
  assumes "full_data pd C D R = Inr fd"
  shows "set (group_keys fd) =
     {(c, t) | r l t c. r \<in> set (rows C) \<and> Country_Region r = Some c
                 \<and> l \<in> set (date_columns C) \<and> to_datetime pd l = Some t}"
  unfolding set_group_keys group_key_full_data [OF assms] by force

lemma keys_load_data:
  assumes "load_data pd C D R = Inr out"
  shows "distinct (map group_key out)"
    and "set (map group_key out) =
     {(c, t) | r l t c. r \<in> set (rows C) \<and> Country_Region r = Some c
                 \<and> l \<in> set (date_columns C) \<and> to_datetime pd l = Some t}"
proof -
  obtain fd where fd: "full_data pd C D R = Inr fd" and out: "out = add_derived (groupby_sum pd fd)"
    using load_data_Inr [OF assms] by blast
  show "distinct (map group_key out)"
    by (simp add: out map_group_key_add_derived keys_groupby_sum)
  show "set (map group_key out) =
     {(c, t) | r l t c. r \<in> set (rows C) \<and> Country_Region r = Some c
                 \<and> l \<in> set (date_columns C) \<and> to_datetime pd l = Some t}"
    unfolding out map_group_key_add_derived keys_groupby_sum(3)
    by (rule group_keys_full_data [OF fd])
qed

lemmas example_defs =
  example_pandas_def example_confirmed_def example_deaths_def example_recovered_def
  ontario_def quebec_def belgium_def date_columns_def

lemma example_run:
  "load_data example_pandas example_confirmed example_deaths example_recovered
     = Inr example_output"
  by (simp add: load_data_def full_data_def melt_def example_defs
      merge_all_def merge_def incompatible_keys_def holds_strings_def
      merge_left_def on_key_def right_value_def fillna_metrics_def fillna0_def
      groupby_sum_def group_keys_def add_derived_def full_row.extend_def
      example_output_def belgium_1_def belgium_2_def canada_1_def canada_2_def)

lemma groupby_sum_row:
  assumes "r \<in> set (groupby_sum pd fd)"
  shows "Confirmed r = sum_list (map Confirmed
           (filter (\<lambda>x. Country_Region x = Some (Country_Region r) \<and> Date x = Date r) fd))"
    and "Deaths r = sum_list (map Deaths
           (filter (\<lambda>x. Country_Region x = Some (Country_Region r) \<and> Date x = Date r) fd))"
    and "Recovered r = sum_list (map Recovered
           (filter (\<lambda>x. Country_Region x = Some (Country_Region r) \<and> Date x = Date r) fd))"
  using assms by (auto simp: groupby_sum_def Let_def)

lemma in_add_derived:
  assumes "r \<in> set (add_derived cd)"
  obtains x where "x \<in> set cd" "Country_Region r = Country_Region x" "Date r = Date x"
    "Lat r = Lat x" "Long r = Long x" "Confirmed r = Confirmed x" "Deaths r = Deaths x"
    "Recovered r = Recovered x"
proof -
  from assms obtain i where i: "i < length cd" and r: "r = add_derived cd ! i"
    by (auto simp: in_set_conv_nth)
  show ?thesis
    by (rule that [of "cd ! i"]) (use i in \<open>simp_all add: r add_derived_nth\<close>)
qed

lemma load_data_row:
  assumes run: "load_data pd C D R = Inr out" and fd: "full_data pd C D R = Inr fd"
    and r: "r \<in> set out"
  shows "Confirmed r = sum_list (map Confirmed
           (filter (\<lambda>x. Country_Region x = Some (Country_Region r) \<and> Date x = Date r) fd))"
    and "Deaths r = sum_list (map Deaths
           (filter (\<lambda>x. Country_Region x = Some (Country_Region r) \<and> Date x = Date r) fd))"
    and "Recovered r = sum_list (map Recovered
           (filter (\<lambda>x. Country_Region x = Some (Country_Region r) \<and> Date x = Date r) fd))"
    and "Active r = Confirmed r - Deaths r - Recovered r"
proof -
  have out: "out = add_derived (groupby_sum pd fd)"
    using run fd by (simp add: load_data_def)
  from r obtain x where x: "x \<in> set (groupby_sum pd fd)"
    and eq: "Country_Region r = Country_Region x" "Date r = Date x"
      "Confirmed r = Confirmed x" "Deaths r = Deaths x" "Recovered r = Recovered x"
    unfolding out by (rule in_add_derived)
  show "Confirmed r = sum_list (map Confirmed
           (filter (\<lambda>x. Country_Region x = Some (Country_Region r) \<and> Date x = Date r) fd))"
    "Deaths r = sum_list (map Deaths
           (filter (\<lambda>x. Country_Region x = Some (Country_Region r) \<and> Date x = Date r) fd))"
    "Recovered r = sum_list (map Recovered
           (filter (\<lambda>x. Country_Region x = Some (Country_Region r) \<and> Date x = Date r) fd))"
    using groupby_sum_row [OF x] by (simp_all add: eq)
  show "Active r = Confirmed r - Deaths r - Recovered r"
    using r unfolding out by (auto simp: add_derived_def full_row.extend_def)
qed

lemma abs_sum_list_le:
  fixes f :: "'a \<Rightarrow> int"
  shows "\<bar>sum_list (map f xs)\<bar> \<le> sum_list (map (\<lambda>x. \<bar>f x\<bar>) xs)"
  by (induction xs) auto

lemma sum_list_filter_le:
  fixes w :: "'a \<Rightarrow> int"
  assumes "\<And>x. 0 \<le> w x"
  shows "sum_list (map w (filter P xs)) \<le> sum_list (map w xs)"
  using assms by (induction xs) (auto intro: add_increasing)

lemma sum_list_two_filters_le:
  fixes w :: "'a \<Rightarrow> int"
  assumes "\<And>x. 0 \<le> w x" and "\<And>x. \<not> (P x \<and> Q x)"
  shows "sum_list (map w (filter P xs)) + sum_list (map w (filter Q xs)) \<le> sum_list (map w xs)"
proof (induction xs)
  case Nil
  then show ?case by simp
next
  case (Cons x xs)
  have "0 \<le> w x" by (rule assms(1))
  with Cons assms(2) [of x] show ?case by auto
qed

lemma sum_list_take_le:
  fixes w :: "'a \<Rightarrow> int"
  assumes "\<And>x. 0 \<le> w x"
  shows "sum_list (map w (take n xs)) \<le> sum_list (map w xs)"
proof (induction xs arbitrary: n)
  case Nil
  then show ?case by simp
next
  case (Cons x xs)
  have "0 \<le> w x" by (rule assms)
  moreover have "0 \<le> sum_list (map w xs)" by (rule sum_list_nonneg) (auto simp: assms)
  ultimately show ?case using Cons [of "n - 1"] by (cases n) auto
qed

lemma group_in_range:
  assumes "exact_range fd"
  shows "\<bar>sum_list (map Confirmed (filter P fd))\<bar> + \<bar>sum_list (map Deaths (filter P fd))\<bar>
           + \<bar>sum_list (map Recovered (filter P fd))\<bar> \<le> 2 ^ 53"
proof -
  let ?w = "\<lambda>r. \<bar>Confirmed r\<bar> + \<bar>Deaths r\<bar> + \<bar>Recovered r\<bar>"
  let ?g = "filter P fd"
  have "\<bar>sum_list (map Confirmed ?g)\<bar> + \<bar>sum_list (map Deaths ?g)\<bar>
           + \<bar>sum_list (map Recovered ?g)\<bar>
        \<le> sum_list (map (\<lambda>r. \<bar>Confirmed r\<bar>) ?g) + sum_list (map (\<lambda>r. \<bar>Deaths r\<bar>) ?g)
           + sum_list (map (\<lambda>r. \<bar>Recovered r\<bar>) ?g)"
    by (intro add_mono abs_sum_list_le)
  also have "\<dots> = sum_list (map ?w ?g)" by (simp add: sum_list_addf)
  also have "\<dots> \<le> sum_list (map ?w fd)" by (rule sum_list_filter_le) simp
  also have "\<dots> \<le> 2 ^ 53" using assms by (simp add: exact_range_def)
  finally show ?thesis .
qed

lemma two_groups_in_range:
  assumes "exact_range fd" and "\<And>x. \<not> (P x \<and> Q x)"
  shows "\<bar>sum_list (map Confirmed (filter P fd))\<bar> + \<bar>sum_list (map Confirmed (filter Q fd))\<bar>
           \<le> 2 ^ 53"
proof -
  let ?w = "\<lambda>r. \<bar>Confirmed r\<bar> + \<bar>Deaths r\<bar> + \<bar>Recovered r\<bar>"
  have le: "\<bar>sum_list (map Confirmed (filter S fd))\<bar> \<le> sum_list (map ?w (filter S fd))" for S
  proof -
    have "\<bar>sum_list (map Confirmed (filter S fd))\<bar>
        \<le> sum_list (map (\<lambda>r. \<bar>Confirmed r\<bar>) (filter S fd))"
      by (rule abs_sum_list_le)
    also have "\<dots> \<le> sum_list (map ?w (filter S fd))" by (rule sum_list_mono) simp
    finally show ?thesis .
  qed
  have "\<bar>sum_list (map Confirmed (filter P fd))\<bar> + \<bar>sum_list (map Confirmed (filter Q fd))\<bar>
      \<le> sum_list (map ?w (filter P fd)) + sum_list (map ?w (filter Q fd))"
    by (intro add_mono le)
  also have "\<dots> \<le> sum_list (map ?w fd)"
    by (rule sum_list_two_filters_le) (simp, rule assms(2))
  also have "\<dots> \<le> 2 ^ 53" using assms(1) by (simp add: exact_range_def)
  finally show ?thesis .
qed

lemma prefix_in_range:
  assumes "exact_range fd"
  shows "\<bar>sum_list (take n (map Confirmed (filter P fd)))\<bar> \<le> 2 ^ 53"
    and "\<bar>sum_list (take n (map Deaths (filter P fd)))\<bar> \<le> 2 ^ 53"
    and "\<bar>sum_list (take n (map Recovered (filter P fd)))\<bar> \<le> 2 ^ 53"
proof -
  let ?w = "\<lambda>r. \<bar>Confirmed r\<bar> + \<bar>Deaths r\<bar> + \<bar>Recovered r\<bar>"
  have total: "sum_list (map ?w (take n (filter P fd))) \<le> 2 ^ 53"
  proof -
    have "sum_list (map ?w (take n (filter P fd))) \<le> sum_list (map ?w (filter P fd))"
      by (rule sum_list_take_le) simp
    also have "\<dots> \<le> sum_list (map ?w fd)" by (rule sum_list_filter_le) simp
    also have "\<dots> \<le> 2 ^ 53" using assms by (simp add: exact_range_def)
    finally show ?thesis .
  qed
  have le: "\<bar>sum_list (take n (map f (filter P fd)))\<bar> \<le> 2 ^ 53"
    if "\<And>r. \<bar>f r\<bar> \<le> ?w r" for f
  proof -
    have "\<bar>sum_list (take n (map f (filter P fd)))\<bar>
        = \<bar>sum_list (map f (take n (filter P fd)))\<bar>"
      by (simp add: take_map)
    also have "\<dots> \<le> sum_list (map (\<lambda>r. \<bar>f r\<bar>) (take n (filter P fd)))"
      by (rule abs_sum_list_le)
    also have "\<dots> \<le> sum_list (map ?w (take n (filter P fd)))"
      by (rule sum_list_mono) (rule that)
    also note total
    finally show ?thesis .
  qed
  show "\<bar>sum_list (take n (map Confirmed (filter P fd)))\<bar> \<le> 2 ^ 53" by (rule le) simp
  show "\<bar>sum_list (take n (map Deaths (filter P fd)))\<bar> \<le> 2 ^ 53" by (rule le) simp
  show "\<bar>sum_list (take n (map Recovered (filter P fd)))\<bar> \<le> 2 ^ 53" by (rule le) simp
qed

lemma filter_key_distinct:
  "distinct (map kr Rt) \<Longrightarrow>
     filter (\<lambda>r. kr r = k) Rt = [] \<or> (\<exists>x. filter (\<lambda>r. kr r = k) Rt = [x])"
proof (induction Rt)
  case Nil
  then show ?case by simp
next
  case (Cons a Rt)
  show ?case
  proof (cases "kr a = k")
    case True
    with Cons.prems have "k \<notin> kr ` set Rt" by simp
    then have "\<forall>r \<in> set Rt. kr r \<noteq> k" by blast
    then have "filter (\<lambda>r. kr r = k) Rt = []" by (simp add: filter_empty_conv)
    with True show ?thesis by simp
  next
    case False
    with Cons show ?thesis by simp
  qed
qed

lemma find_filter_conv:
  "find P xs = (case filter P xs of [] \<Rightarrow> None | x # ys \<Rightarrow> Some x)"
  by (induction xs) auto

lemma merge_left_distinct:
  assumes "distinct (map kr Rt)"
  shows "merge_left L kl Rt kr = map (\<lambda>l. (l, find (\<lambda>r. kr r = kl l) Rt)) L"
proof -
  have one: "(case filter (\<lambda>r. kr r = kl l) Rt of
                [] \<Rightarrow> [(l, None)]
              | m # ms \<Rightarrow> map (\<lambda>r. (l, Some r)) (m # ms)) = [(l, find (\<lambda>r. kr r = kl l) Rt)]" for l
    using filter_key_distinct [OF assms, of "kl l"] by (auto simp: find_filter_conv)
  show ?thesis
    unfolding merge_left_def one by (induction L) simp_all
qed

lemma joined_distinct:
  assumes "distinct (map on_key dm)" and "distinct (map on_key rm)"
  shows "joined cm dm rm =
     map (\<lambda>c. \<lparr>Province_State = Province_State c, Country_Region = Country_Region c,
                Lat = Lat c, Long = Long c, Date = Date c, Confirmed = Value c,
                Deaths = right_value (find (\<lambda>d. on_key d = on_key c) dm),
                Recovered = right_value (find (\<lambda>d. on_key d = on_key c) rm)\<rparr>) cm"
  unfolding joined_def merge_left_distinct [OF assms(1)] merge_left_distinct [OF assms(2)]
  by (simp add: comp_def)

lemma long_table_Cons:
  "long_table f rws (v # dates) =
     (case f v of None \<Rightarrow> [] | Some t \<Rightarrow> map (\<lambda>r.
         \<lparr>Province_State = Province_State r, Country_Region = Country_Region r,
          Lat = Lat r, Long = Long r, Date = t, Value = cell r v\<rparr>) rws)
     @ long_table f rws dates"
  by (simp add: long_table_def)

lemma distinct_on_key_long_table:
  assumes "distinct (map id_key rws)" and "distinct (map f dates)"
  shows "distinct (map on_key (long_table f rws dates))"
  using assms(2)
proof (induction dates)
  case Nil
  then show ?case by (simp add: long_table_def)
next
  case (Cons v dates)
  then have IH: "distinct (map on_key (long_table f rws dates))"
    and fresh: "f v \<notin> f ` set dates"
    by simp_all
  show ?case
  proof (cases "f v")
    case None
    then show ?thesis using IH by (simp add: long_table_Cons)
  next
    case (Some t)
    let ?col = "map (\<lambda>r.
         \<lparr>Province_State = Province_State r, Country_Region = Country_Region r,
          Lat = Lat r, Long = Long r, Date = t, Value = cell r v\<rparr>) rws"
    have col: "map on_key ?col = map (\<lambda>(p, c, x, y). (p, c, t, x, y)) (map id_key rws)"
      by (simp add: on_key_def id_key_def)
    have "inj (\<lambda>(p, c, x, y). (p, c, t, x, y))"
      by (rule injI) (auto split: prod.splits)
    then have inj: "inj_on (\<lambda>(p, c, x, y). (p, c, t, x, y)) (set (map id_key rws))"
      by (rule inj_on_subset) simp
    have dcol: "distinct (map on_key ?col)"
      unfolding col using assms(1) inj by (rule iffD2 [OF distinct_map, OF conjI])
    have ne: "on_key a \<noteq> on_key b"
      if "a \<in> set ?col" and "b \<in> set (long_table f rws dates)" for a b
    proof -
      from that(1) have a: "Date a = t" by auto
      from that(2) obtain l where "l \<in> set dates" "f l = Some (Date b)"
        unfolding in_long_table by auto
      then have "Some (Date b) \<in> f ` set dates" by (metis imageI)
      with fresh Some have "Date b \<noteq> t" by auto
      with a show ?thesis by (auto simp: on_key_def)
    qed
    have disj: "set (map on_key ?col) \<inter> set (map on_key (long_table f rws dates)) = {}"
    proof -
      define A where "A = set ?col"
      define B where "B = set (long_table f rws dates)"
      have "on_key a \<noteq> on_key b" if "a \<in> A" "b \<in> B" for a b
        using that ne unfolding A_def B_def by blast
      then have "on_key ` A \<inter> on_key ` B = {}" by blast
      then show ?thesis unfolding A_def B_def set_map .
    qed
    have "map on_key (long_table f rws (v # dates)) =
        map on_key ?col @ map on_key (long_table f rws dates)"
      by (simp add: long_table_Cons Some)
    moreover have "distinct (map on_key ?col @ map on_key (long_table f rws dates))"
      using dcol IH disj by (rule iffD2 [OF distinct_append, OF conjI [OF _ conjI]])
    ultimately show ?thesis by (simp only:)
  qed
qed

lemma find_on_key_long_table:
  assumes ids: "distinct (map id_key rws)" and dates: "distinct (map f ds)"
    and l: "l \<in> set ds" "f l = Some t"
    and k: "on_key m = (p, c, t, x, y)"
  shows "right_value (find (\<lambda>d. on_key d = on_key m) (long_table f rws ds)) =
           (case find (\<lambda>d. id_key d = (p, c, x, y)) rws of None \<Rightarrow> None | Some d \<Rightarrow> cell d l)"
proof (cases "find (\<lambda>d. id_key d = (p, c, x, y)) rws")
  case None
  then have no: "\<forall>d \<in> set rws. id_key d \<noteq> (p, c, x, y)"
    by (simp add: find_None_iff)
  have "on_key a \<noteq> on_key m" if "a \<in> set (long_table f rws ds)" for a
  proof
    assume e: "on_key a = on_key m"
    from that obtain r where r: "r \<in> set rws"
      and "Province_State a = Province_State r" "Country_Region a = Country_Region r"
      "Lat a = Lat r" "Long a = Long r"
      unfolding in_long_table by auto
    then have "id_key r = (Province_State a, Country_Region a, Lat a, Long a)"
      by (simp add: id_key_def)
    also have "\<dots> = (p, c, x, y)" using e unfolding k by (simp add: on_key_def)
    finally show False using no r by blast
  qed
  then have "find (\<lambda>d. on_key d = on_key m) (long_table f rws ds) = None"
    by (auto simp: find_None_iff)
  then show ?thesis using None by (simp add: right_value_def)
next
  case (Some d)
  then have d: "d \<in> set rws" "id_key d = (p, c, x, y)"
    by (auto simp: find_Some_iff)
  let ?a = "\<lparr>Province_State = Province_State d, Country_Region = Country_Region d,
              Lat = Lat d, Long = Long d, Date = t, Value = cell d l\<rparr>"
  have a: "?a \<in> set (long_table f rws ds)"
    unfolding in_long_table using d(1) l by blast
  have ka: "on_key ?a = on_key m" using d(2) unfolding k by (simp add: on_key_def id_key_def)
  have "find (\<lambda>d. on_key d = on_key m) (long_table f rws ds) \<noteq> None"
    using a ka by (auto simp: find_None_iff)
  then obtain b where b: "find (\<lambda>d. on_key d = on_key m) (long_table f rws ds) = Some b"
    by auto
  then have bm: "b \<in> set (long_table f rws ds)" and kb: "on_key b = on_key m"
    by (auto simp: find_Some_iff)
  have inj: "inj_on on_key (set (long_table f rws ds))"
    using distinct_on_key_long_table [OF ids dates] by (simp add: distinct_map)
  have "on_key b = on_key ?a" using kb ka by simp
  with inj have "b = ?a" using bm a by (rule inj_onD)
  then show ?thesis using b Some by (simp add: right_value_def)
qed

lemma filter_long_table_no_date:
  assumes "\<forall>v \<in> set dates. f v \<noteq> Some t"
  shows "filter (\<lambda>m. Country_Region m = c \<and> Date m = t) (long_table f rws dates) = []"
  using assms by (auto simp: filter_empty_conv in_long_table)

lemma rows_of_date_column:
  assumes "distinct (map f dates)" and "l \<in> set dates" and "f l = Some t"
  shows "filter (\<lambda>m. Country_Region m = c \<and> Date m = t) (long_table f rws dates) =
         map (\<lambda>r. \<lparr>Province_State = Province_State r, Country_Region = Country_Region r,
                    Lat = Lat r, Long = Long r, Date = t, Value = cell r l\<rparr>)
             (filter (\<lambda>r. Country_Region r = c) rws)"
  using assms(1,2)
proof (induction dates)
  case Nil
  then show ?case by simp
next
  case (Cons v dates)
  show ?case
  proof (cases "v = l")
    case True
    with Cons.prems assms(3) have "\<forall>v' \<in> set dates. f v' \<noteq> Some t" by force
    then have "filter (\<lambda>m. Country_Region m = c \<and> Date m = t) (long_table f rws dates) = []"
      by (rule filter_long_table_no_date)
    then show ?thesis
      using True assms(3)
      by (simp add: long_table_Cons filter_map comp_def)
  next
    case False
    with Cons.prems have l: "l \<in> set dates" and d: "distinct (map f dates)" by simp_all
    from Cons.prems l assms(3) have "f v \<noteq> Some t" by force
    then have "filter (\<lambda>m. Country_Region m = c \<and> Date m = t)
        (case f v of None \<Rightarrow> [] | Some t \<Rightarrow> map (\<lambda>r.
         \<lparr>Province_State = Province_State r, Country_Region = Country_Region r,
          Lat = Lat r, Long = Long r, Date = t, Value = cell r v\<rparr>) rws) = []"
      by (auto simp: filter_empty_conv split: option.splits)
    then show ?thesis
      using Cons.IH [OF d l] by (simp add: long_table_Cons)
  qed
qed

lemma metrics_from_raw_rows:
  assumes fd: "full_data pd C D R = Inr fd"
    and dates: "distinct (map (to_datetime pd) (date_columns C))"
    and keys: "distinct (map id_key (rows D))" "distinct (map id_key (rows R))"
    and l: "l \<in> set (date_columns C)" "to_datetime pd l = Some t"
  shows "map (\<lambda>m. (Confirmed m, Deaths m, Recovered m))
           (filter (\<lambda>m. Country_Region m = c \<and> Date m = t) fd) =
         map (\<lambda>r. (fillna0 (cell r l), count_of (rows D) r l, count_of (rows R) r l))
           (filter (\<lambda>r. Country_Region r = c) (rows C))"
proof -
  let ?f = "to_datetime pd" and ?ds = "date_columns C"
  let ?cm = "long_table ?f (rows C) ?ds"
  let ?dm = "long_table ?f (rows D) ?ds"
  let ?rm = "long_table ?f (rows R) ?ds"
  let ?F = "\<lambda>c. \<lparr>Province_State = Province_State c, Country_Region = Country_Region c,
                Lat = Lat c, Long = Long c, Date = Date c, Confirmed = fillna0 (Value c),
                Deaths = fillna0 (right_value (find (\<lambda>d. on_key d = on_key c) ?dm)),
                Recovered = fillna0 (right_value (find (\<lambda>d. on_key d = on_key c) ?rm))\<rparr>"
  let ?mk = "\<lambda>r. \<lparr>Province_State = Province_State r, Country_Region = Country_Region r,
                    Lat = Lat r, Long = Long r, Date = t, Value = cell r l\<rparr>"
  have "fd = fillna_metrics (joined ?cm ?dm ?rm)" by (rule full_data_Inr(1) [OF fd])
  also have "\<dots> = map ?F ?cm"
    unfolding joined_distinct [OF distinct_on_key_long_table [OF keys(1) dates]
        distinct_on_key_long_table [OF keys(2) dates]]
    by (simp add: fillna_metrics_def comp_def)
  finally have fd_eq: "fd = map ?F ?cm" .
  have "filter (\<lambda>m. Country_Region m = c \<and> Date m = t) fd =
      map ?F (filter (\<lambda>m. Country_Region m = c \<and> Date m = t) ?cm)"
    unfolding fd_eq filter_map by (simp add: comp_def)
  also have "\<dots> = map ?F (map ?mk (filter (\<lambda>r. Country_Region r = c) (rows C)))"
    by (simp only: rows_of_date_column [OF dates l])
  finally have grp: "filter (\<lambda>m. Country_Region m = c \<and> Date m = t) fd =
      map ?F (map ?mk (filter (\<lambda>r. Country_Region r = c) (rows C)))" .
  have point: "(Confirmed (?F (?mk r)), Deaths (?F (?mk r)), Recovered (?F (?mk r))) =
      (fillna0 (cell r l), count_of (rows D) r l, count_of (rows R) r l)" for r
  proof -
    have k: "on_key (?mk r) = (Province_State r, Country_Region r, t, Lat r, Long r)"
      by (simp add: on_key_def)
    have "right_value (find (\<lambda>d. on_key d = on_key (?mk r)) ?dm) =
        (case find (\<lambda>d. id_key d = id_key r) (rows D) of None \<Rightarrow> None | Some d \<Rightarrow> cell d l)"
      unfolding id_key_def [of r] by (rule find_on_key_long_table [OF keys(1) dates l k])
    moreover have "right_value (find (\<lambda>d. on_key d = on_key (?mk r)) ?rm) =
        (case find (\<lambda>d. id_key d = id_key r) (rows R) of None \<Rightarrow> None | Some d \<Rightarrow> cell d l)"
      unfolding id_key_def [of r] by (rule find_on_key_long_table [OF keys(2) dates l k])
    ultimately show ?thesis by (simp add: count_of_def)
  qed
  show ?thesis
    unfolding grp map_map comp_def point ..
qed

lemma example_full_run:
  "full_data example_pandas example_confirmed example_deaths example_recovered
     = Inr example_full_data"
  by (simp add: full_data_def melt_def example_defs
      merge_all_def merge_def incompatible_keys_def holds_strings_def
      merge_left_def on_key_def right_value_def fillna_metrics_def fillna0_def
      example_full_data_def quebec_1_def)

lemma example_in_range: "exact_range example_full_data"
  by (simp add: exact_range_def example_full_data_def quebec_1_def)

lemmas example_rows = belgium_1_def belgium_2_def canada_1_def canada_2_def

section \<open>The claims of the specification\<close>

text \<open>
  Claim C1. The output has exactly one row for each (region, date) pair of the confirmed
  table: the keys of the output rows are pairwise distinct, and they are the pairs of a
  region of a confirmed row and a parsed date label of the confirmed table. When the date
  columns of the confirmed table parse to pairwise distinct dates (one column per date, as
  the contract says), every region of the confirmed table has as many output rows as the
  confirmed table has date columns.
\<close>

theorem one_row_per_region_and_date:
  assumes run: "load_data pd C D R = Inr out"
  shows "distinct (map group_key out)
       \<and> set (map group_key out) =
           {(c, t) | r l t c. r \<in> set (rows C) \<and> Country_Region r = Some c
              \<and> l \<in> set (date_columns C) \<and> to_datetime pd l = Some t}
       \<and> (\<forall>r \<in> set (rows C). \<forall>c. Country_Region r = Some c \<longrightarrow>
            distinct (map (to_datetime pd) (date_columns C)) \<longrightarrow>
            length (filter (\<lambda>x. Country_Region x = c) out) = length (date_columns C))"
proof (intro conjI ballI allI impI)
  let ?f = "to_datetime pd" and ?ds = "date_columns C"
  let ?K = "{(c, t) | r l t c. r \<in> set (rows C) \<and> Country_Region r = Some c
              \<and> l \<in> set ?ds \<and> ?f l = Some t}"
  show dist: "distinct (map group_key out)" by (rule keys_load_data(1) [OF run])
  show keys: "set (map group_key out) = ?K" by (rule keys_load_data(2) [OF run])
  fix r c assume r: "r \<in> set (rows C)" and c: "Country_Region r = Some c"
    and inj: "distinct (map ?f ?ds)"
  obtain fd where fd: "full_data pd C D R = Inr fd"
    using load_data_Inr [OF run] by blast
  from r have "rows C \<noteq> []" by auto
  with full_data_Inr(2) [OF fd] have all: "\<forall>l \<in> set ?ds. ?f l \<noteq> None"
    by (simp add: parses_def)
  let ?T = "{t. \<exists>l \<in> set ?ds. ?f l = Some t}"
  have "length (filter (\<lambda>x. Country_Region x = c) out) =
      length (filter (\<lambda>k. fst k = c) (map group_key out))"
    by (simp add: filter_map comp_def group_key_def)
  also have "\<dots> = card (set (filter (\<lambda>k. fst k = c) (map group_key out)))"
  proof -
    have "distinct (filter (\<lambda>k. fst k = c) (map group_key out))"
      using dist by (rule distinct_filter)
    then show ?thesis by (rule distinct_card [symmetric])
  qed
  also have "set (filter (\<lambda>k. fst k = c) (map group_key out)) = {k \<in> ?K. fst k = c}"
    using keys by auto
  also have "{k \<in> ?K. fst k = c} = (\<lambda>t. (c, t)) ` ?T"
    using r c by auto
  also have "card \<dots> = card ?T"
    by (rule card_image) (simp add: inj_on_def)
  also have "\<dots> = card (Some ` ?T)"
    by (rule card_image [symmetric]) simp
  also have "Some ` ?T = set (map ?f ?ds)"
  proof (intro set_eqI iffI)
    fix x assume "x \<in> Some ` ?T"
    then obtain l where "l \<in> set ?ds" "?f l = x" by force
    then show "x \<in> set (map ?f ?ds)" by force
  next
    fix x assume "x \<in> set (map ?f ?ds)"
    then obtain l where l: "l \<in> set ?ds" and x: "x = ?f l" by auto
    with all obtain t where "?f l = Some t" by blast
    with l x show "x \<in> Some ` ?T" by blast
  qed
  also have "card \<dots> = length ?ds"
    using inj by (simp add: distinct_card del: set_map)
  finally show "length (filter (\<lambda>x. Country_Region x = c) out) = length ?ds" .
qed

theorem one_row_per_region_and_date_witness:
  "load_data example_pandas example_confirmed example_deaths example_recovered
     = Inr example_output
   \<and> ontario \<in> set (rows example_confirmed)
   \<and> Country_Region ontario = Some ''Canada''
   \<and> distinct (map (to_datetime example_pandas) (date_columns example_confirmed))
   \<and> distinct (map group_key example_output)
   \<and> length (filter (\<lambda>x. Country_Region x = ''Canada'') example_output)
       = length (date_columns example_confirmed)
   \<and> length (date_columns example_confirmed) = 2"
proof -
  have r: "ontario \<in> set (rows example_confirmed)"
    and c: "Country_Region ontario = Some ''Canada''"
    by (simp_all add: example_defs)
  have inj: "distinct (map (to_datetime example_pandas) (date_columns example_confirmed))"
    by (simp add: example_defs)
  have two: "length (date_columns example_confirmed) = 2"
    by (simp add: example_defs)
  from one_row_per_region_and_date [OF example_run] r c inj two example_run
  show ?thesis by blast
qed

text \<open>
  Claim C2. In every row of the output, \<^verbatim>\<open>Active\<close> is
  \<^verbatim>\<open>Confirmed - Deaths - Recovered\<close>; nothing clamps a negative value. Within
  \<open>exact_range\<close> the three operands, the intermediate difference and the result have
  magnitude at most \<open>2\<^sup>5\<^sup>3\<close>, so the subtraction of line 70 on int64 or float64 columns
  is the subtraction of integers.
\<close>

theorem active_is_difference:
  assumes run: "load_data pd C D R = Inr out" and fd: "full_data pd C D R = Inr fd"
    and range: "exact_range fd" and r: "r \<in> set out"
  shows "Active r = Confirmed r - Deaths r - Recovered r
       \<and> \<bar>Confirmed r\<bar> \<le> 2 ^ 53 \<and> \<bar>Deaths r\<bar> \<le> 2 ^ 53 \<and> \<bar>Recovered r\<bar> \<le> 2 ^ 53
       \<and> \<bar>Confirmed r - Deaths r\<bar> \<le> 2 ^ 53 \<and> \<bar>Active r\<bar> \<le> 2 ^ 53"
proof -
  note row = load_data_row [OF run fd r]
  have "\<bar>Confirmed r\<bar> + \<bar>Deaths r\<bar> + \<bar>Recovered r\<bar> \<le> 2 ^ 53"
    unfolding row(1-3) by (rule group_in_range [OF range])
  with row(4) show ?thesis by auto
qed

theorem active_is_difference_witness:
  "load_data example_pandas example_confirmed example_deaths example_recovered
     = Inr example_output
   \<and> full_data example_pandas example_confirmed example_deaths example_recovered
       = Inr example_full_data
   \<and> exact_range example_full_data
   \<and> belgium_2 \<in> set example_output
   \<and> Active belgium_2 = Confirmed belgium_2 - Deaths belgium_2 - Recovered belgium_2
   \<and> Active belgium_2 = - 1"
proof -
  have mem: "belgium_2 \<in> set example_output" by (simp add: example_output_def)
  have "Active belgium_2 = - 1" by (simp add: belgium_2_def)
  with example_run example_full_run example_in_range mem
    active_is_difference [OF example_run example_full_run example_in_range mem]
  show ?thesis by blast
qed

text \<open>
  Claim C3. The output row with the earliest date of a region has \<^verbatim>\<open>New Cases\<close> 0.
\<close>

theorem first_date_new_cases_zero:
  assumes run: "load_data pd C D R = Inr out"
    and o: "r \<in> set out"
    and first: "\<forall>p \<in> set out. Country_Region p = Country_Region r \<longrightarrow> Date r \<le> Date p"
  shows "New_Cases r = 0"
proof -
  obtain fd where out: "out = add_derived (groupby_sum pd fd)"
    using load_data_Inr [OF run] by blast
  let ?cd = "groupby_sum pd fd"
  from o obtain i where i: "i < length ?cd" and r: "r = out ! i"
    by (auto simp: out in_set_conv_nth)
  have nc: "New_Cases r =
      (if i = 0 \<or> Country_Region (?cd ! (i - 1)) \<noteq> Country_Region (?cd ! i) then 0
       else Confirmed (?cd ! i) - Confirmed (?cd ! (i - 1)))"
    unfolding r out by (rule new_cases_nth [OF countries_sorted i])
  show ?thesis
  proof (cases "i = 0 \<or> Country_Region (?cd ! (i - 1)) \<noteq> Country_Region (?cd ! i)")
    case True
    then show ?thesis using nc by simp
  next
    case False
    then have pos: "0 < i" and same: "Country_Region (?cd ! (i - 1)) = Country_Region (?cd ! i)"
      by auto
    have "group_key (?cd ! (i - 1)) < group_key (?cd ! i)"
      using pos i by (intro strict_keys) auto
    with same have lt: "Date (?cd ! (i - 1)) < Date (?cd ! i)"
      by (simp add: group_key_def less_prod_def')
    have "out ! (i - 1) \<in> set out" using i by (simp add: out)
    moreover have "Country_Region (out ! (i - 1)) = Country_Region r"
      using i same by (simp add: out r add_derived_nth)
    ultimately have "Date r \<le> Date (out ! (i - 1))" using first by blast
    then show ?thesis using lt i by (simp add: out r add_derived_nth)
  qed
qed

theorem first_date_new_cases_zero_witness:
  "load_data example_pandas example_confirmed example_deaths example_recovered
     = Inr example_output
   \<and> canada_1 \<in> set example_output \<and> New_Cases canada_1 = 0"
proof -
  have mem: "canada_1 \<in> set example_output" by (simp add: example_output_def)
  have first: "\<forall>p \<in> set example_output.
      Country_Region p = Country_Region canada_1 \<longrightarrow> Date canada_1 \<le> Date p"
    by (simp add: example_output_def example_rows)
  from first_date_new_cases_zero [OF example_run mem first] example_run mem
  show ?thesis by blast
qed

text \<open>
  Claim C4. When \<open>p\<close> is the output row of the same region with the date immediately
  before the date of \<open>r\<close> (no row of the region lies strictly between them), the
  \<^verbatim>\<open>New Cases\<close> of \<open>r\<close> is the aggregated \<^verbatim>\<open>Confirmed\<close> of \<open>r\<close> minus that of
  \<open>p\<close>, whatever its sign. Within \<open>exact_range\<close> both operands and the difference have
  magnitude at most \<open>2\<^sup>5\<^sup>3\<close>, so the float64 difference of \<^verbatim>\<open>diff()\<close> is the
  difference of integers.
\<close>

theorem new_cases_difference:
  assumes run: "load_data pd C D R = Inr out" and fd: "full_data pd C D R = Inr fd"
    and range: "exact_range fd"
    and o: "r \<in> set out" and p: "p \<in> set out"
    and same: "Country_Region p = Country_Region r"
    and before: "Date p < Date r"
    and adjacent: "\<forall>q \<in> set out. Country_Region q = Country_Region r \<longrightarrow>
                       \<not> (Date p < Date q \<and> Date q < Date r)"
  shows "New_Cases r = Confirmed r - Confirmed p
       \<and> \<bar>Confirmed r\<bar> \<le> 2 ^ 53 \<and> \<bar>Confirmed p\<bar> \<le> 2 ^ 53 \<and> \<bar>New_Cases r\<bar> \<le> 2 ^ 53"
proof -
  have nc: "New_Cases r = Confirmed r - Confirmed p"
    using run o p same before adjacent by (rule new_cases_adjacent)
  have "\<bar>Confirmed r\<bar> + \<bar>Confirmed p\<bar> \<le> 2 ^ 53"
    unfolding load_data_row(1) [OF run fd o] load_data_row(1) [OF run fd p]
    by (rule two_groups_in_range [OF range]) (use before in auto)
  with nc show ?thesis by auto
qed

theorem new_cases_difference_witness:
  "load_data example_pandas example_confirmed example_deaths example_recovered
     = Inr example_output
   \<and> full_data example_pandas example_confirmed example_deaths example_recovered
       = Inr example_full_data
   \<and> exact_range example_full_data
   \<and> belgium_2 \<in> set example_output \<and> belgium_1 \<in> set example_output
   \<and> Country_Region belgium_1 = Country_Region belgium_2
   \<and> Date belgium_1 < Date belgium_2
   \<and> New_Cases belgium_2 = Confirmed belgium_2 - Confirmed belgium_1
   \<and> Confirmed belgium_2 - Confirmed belgium_1 = - 1"
proof -
  have r: "belgium_2 \<in> set example_output" and p: "belgium_1 \<in> set example_output"
    by (simp_all add: example_output_def)
  have same: "Country_Region belgium_1 = Country_Region belgium_2"
    and before: "Date belgium_1 < Date belgium_2"
    and val: "Confirmed belgium_2 - Confirmed belgium_1 = - 1"
    by (simp_all add: example_rows)
  have adjacent: "\<forall>q \<in> set example_output. Country_Region q = Country_Region belgium_2 \<longrightarrow>
      \<not> (Date belgium_1 < Date q \<and> Date q < Date belgium_2)"
    by (simp add: example_output_def example_rows)
  from new_cases_difference
    [OF example_run example_full_run example_in_range r p same before adjacent]
    example_run example_full_run example_in_range r p same before val
  show ?thesis by blast
qed

text \<open>
  Claim C5, amended. Let the deaths and recovered tables have every date column of the
  confirmed table, let every date label parse, and let the merges accept the key columns
  of the tables (\<open>same_key_dtypes\<close>). Then the transform raises no error. Every confirmed
  row and date is kept by the joins; and when no row of the deaths table (of the recovered
  table) has the identifiers of the confirmed row, every row of \<^verbatim>\<open>full_data\<close> with that
  key has \<^verbatim>\<open>Deaths\<close> (\<^verbatim>\<open>Recovered\<close>) 0. The claim as stated fails: an unmatched key can
  go with a \<^verbatim>\<open>ValueError\<close> of \<^verbatim>\<open>pd.merge\<close>, see the counterexample after the theorem.
\<close>

theorem unmatched_rows_are_zero_filled:
  fixes C D R :: "(string option, string option, 'f) raw_table"
  assumes cols: "set (date_columns C) \<subseteq> set (date_columns D)"
      "set (date_columns C) \<subseteq> set (date_columns R)"
    and parse: "\<forall>l \<in> set (date_columns C). to_datetime pd l \<noteq> None"
    and dtypes: "same_key_dtypes C D" "same_key_dtypes C R"
    and c: "c \<in> set (rows C)" and l: "l \<in> set (date_columns C)"
    and t: "to_datetime pd l = Some t"
  shows "\<exists>fd out. full_data pd C D R = Inr fd \<and> load_data pd C D R = Inr out
       \<and> (\<exists>m \<in> set fd. on_key m = (Province_State c, Country_Region c, t, Lat c, Long c))
       \<and> ((\<forall>d \<in> set (rows D). id_key d \<noteq> id_key c) \<longrightarrow>
            (\<forall>m \<in> set fd. on_key m = (Province_State c, Country_Region c, t, Lat c, Long c)
                \<longrightarrow> Deaths m = 0))
       \<and> ((\<forall>r \<in> set (rows R). id_key r \<noteq> id_key c) \<longrightarrow>
            (\<forall>m \<in> set fd. on_key m = (Province_State c, Country_Region c, t, Lat c, Long c)
                \<longrightarrow> Recovered m = 0))"
proof -
  let ?f = "to_datetime pd" and ?ds = "date_columns C"
  let ?cm = "long_table ?f (rows C) ?ds"
  let ?dm = "long_table ?f (rows D) ?ds"
  let ?rm = "long_table ?f (rows R) ?ds"
  let ?fd = "fillna_metrics (joined ?cm ?dm ?rm)"
  let ?k = "(Province_State c, Country_Region c, t, Lat c, Long c)"
  have fd: "full_data pd C D R = Inr ?fd"
    unfolding full_data_eq using cols parse dtypes by (simp add: parses_def)
  then have out: "load_data pd C D R = Inr (add_derived (groupby_sum pd ?fd))"
    by (simp add: load_data_def)
  let ?c = "\<lparr>Province_State = Province_State c, Country_Region = Country_Region c,
              Lat = Lat c, Long = Long c, Date = t, Value = cell c l\<rparr>"
  have cin: "?c \<in> set ?cm" unfolding in_long_table using c l t by blast
  have kept: "\<exists>m \<in> set ?fd. on_key m = ?k"
  proof -
    obtain d where d: "case d of None \<Rightarrow> \<forall>x \<in> set ?dm. on_key x \<noteq> on_key ?c
                               | Some x \<Rightarrow> x \<in> set ?dm \<and> on_key x = on_key ?c"
    proof (cases "\<exists>x \<in> set ?dm. on_key x = on_key ?c")
      case True
      then obtain x where "x \<in> set ?dm" "on_key x = on_key ?c" by blast
      then show ?thesis by (intro that [of "Some x"]) simp
    next
      case False
      then show ?thesis by (intro that [of None]) simp
    qed
    obtain r where r: "case r of None \<Rightarrow> \<forall>x \<in> set ?rm. on_key x \<noteq> on_key ?c
                               | Some x \<Rightarrow> x \<in> set ?rm \<and> on_key x = on_key ?c"
    proof (cases "\<exists>x \<in> set ?rm. on_key x = on_key ?c")
      case True
      then obtain x where "x \<in> set ?rm" "on_key x = on_key ?c" by blast
      then show ?thesis by (intro that [of "Some x"]) simp
    next
      case False
      then show ?thesis by (intro that [of None]) simp
    qed
    let ?m = "\<lparr>Province_State = Province_State ?c, Country_Region = Country_Region ?c,
                 Lat = Lat ?c, Long = Long ?c, Date = Date ?c,
                 Confirmed = Value ?c, Deaths = right_value d, Recovered = right_value r\<rparr>"
    have "?m \<in> set (joined ?cm ?dm ?rm)"
      unfolding in_joined using cin d r by blast
    then have "\<lparr>Province_State = Province_State ?m, Country_Region = Country_Region ?m,
                 Lat = Lat ?m, Long = Long ?m, Date = Date ?m,
                 Confirmed = fillna0 (Confirmed ?m), Deaths = fillna0 (Deaths ?m),
                 Recovered = fillna0 (Recovered ?m)\<rparr> \<in> set ?fd"
      unfolding in_fillna_metrics by blast
    then show ?thesis by (rule rev_bexI) (simp add: on_key_def)
  qed
  have unmatched: "on_key x \<noteq> ?k"
    if "\<forall>d \<in> set (rows T). id_key d \<noteq> id_key c" and "x \<in> set (long_table ?f (rows T) ?ds)"
    for x and T :: "(string option, string option, 'f) raw_table"
  proof -
    from that(2) obtain r where "r \<in> set (rows T)"
      "Province_State x = Province_State r" "Country_Region x = Country_Region r"
      "Lat x = Lat r" "Long x = Long r"
      unfolding in_long_table by auto
    with that(1) show ?thesis by (auto simp: on_key_def id_key_def)
  qed
  have parts: "\<exists>c' d r. c' \<in> set ?cm
        \<and> (case d of None \<Rightarrow> \<forall>x \<in> set ?dm. on_key x \<noteq> on_key c'
                    | Some x \<Rightarrow> x \<in> set ?dm \<and> on_key x = on_key c')
        \<and> (case r of None \<Rightarrow> \<forall>x \<in> set ?rm. on_key x \<noteq> on_key c'
                    | Some x \<Rightarrow> x \<in> set ?rm \<and> on_key x = on_key c')
        \<and> on_key m = on_key c'
        \<and> Deaths m = fillna0 (right_value d) \<and> Recovered m = fillna0 (right_value r)"
    if "m \<in> set ?fd" for m
  proof -
    from that obtain x where x: "x \<in> set (joined ?cm ?dm ?rm)"
      and m: "on_key m = on_key x" "Deaths m = fillna0 (Deaths x)"
        "Recovered m = fillna0 (Recovered x)"
      unfolding in_fillna_metrics by (auto simp: on_key_def)
    from x obtain c' d r where "c' \<in> set ?cm"
      "case d of None \<Rightarrow> \<forall>x \<in> set ?dm. on_key x \<noteq> on_key c'
               | Some x \<Rightarrow> x \<in> set ?dm \<and> on_key x = on_key c'"
      "case r of None \<Rightarrow> \<forall>x \<in> set ?rm. on_key x \<noteq> on_key c'
               | Some x \<Rightarrow> x \<in> set ?rm \<and> on_key x = on_key c'"
      "x = \<lparr>Province_State = Province_State c', Country_Region = Country_Region c',
            Lat = Lat c', Long = Long c', Date = Date c',
            Confirmed = Value c', Deaths = right_value d, Recovered = right_value r\<rparr>"
      unfolding in_joined by blast
    then show ?thesis using m by (intro exI [of _ c'] exI [of _ d] exI [of _ r]) (simp add: on_key_def)
  qed
  have deaths: "Deaths m = 0"
    if no: "\<forall>d \<in> set (rows D). id_key d \<noteq> id_key c" and m: "m \<in> set ?fd" "on_key m = ?k" for m
  proof -
    from parts [OF m(1)] obtain c' d r where
      "c' \<in> set ?cm"
      and d: "case d of None \<Rightarrow> \<forall>x \<in> set ?dm. on_key x \<noteq> on_key c'
                  | Some x \<Rightarrow> x \<in> set ?dm \<and> on_key x = on_key c'"
      and "case r of None \<Rightarrow> \<forall>x \<in> set ?rm. on_key x \<noteq> on_key c'
                  | Some x \<Rightarrow> x \<in> set ?rm \<and> on_key x = on_key c'"
      and k: "on_key m = on_key c'" and v: "Deaths m = fillna0 (right_value d)"
      and "Recovered m = fillna0 (right_value r)"
      by (elim exE conjE)
    have "d = None"
    proof (cases d)
      case (Some x)
      with d have "x \<in> set ?dm" "on_key x = ?k" using k m(2) by simp_all
      with unmatched [OF no] show ?thesis by blast
    qed simp
    then show ?thesis using v by (simp add: right_value_def fillna0_def)
  qed
  have recovered: "Recovered m = 0"
    if no: "\<forall>r \<in> set (rows R). id_key r \<noteq> id_key c" and m: "m \<in> set ?fd" "on_key m = ?k" for m
  proof -
    from parts [OF m(1)] obtain c' d r where
      "c' \<in> set ?cm"
      and "case d of None \<Rightarrow> \<forall>x \<in> set ?dm. on_key x \<noteq> on_key c'
                  | Some x \<Rightarrow> x \<in> set ?dm \<and> on_key x = on_key c'"
      and r: "case r of None \<Rightarrow> \<forall>x \<in> set ?rm. on_key x \<noteq> on_key c'
                  | Some x \<Rightarrow> x \<in> set ?rm \<and> on_key x = on_key c'"
      and k: "on_key m = on_key c'" and "Deaths m = fillna0 (right_value d)"
      and v: "Recovered m = fillna0 (right_value r)"
      by (elim exE conjE)
    have "r = None"
    proof (cases r)
      case (Some x)
      with r have "x \<in> set ?rm" "on_key x = ?k" using k m(2) by simp_all
      with unmatched [OF no] show ?thesis by blast
    qed simp
    then show ?thesis using v by (simp add: right_value_def fillna0_def)
  qed
  show ?thesis
    using fd out kept deaths recovered by blast
qed

theorem unmatched_rows_are_zero_filled_witness:
  "set (date_columns example_confirmed) \<subseteq> set (date_columns example_deaths)
   \<and> set (date_columns example_confirmed) \<subseteq> set (date_columns example_recovered)
   \<and> same_key_dtypes example_confirmed example_deaths
   \<and> same_key_dtypes example_confirmed example_recovered
   \<and> quebec \<in> set (rows example_confirmed)
   \<and> ''1/22/20'' \<in> set (date_columns example_confirmed)
   \<and> to_datetime example_pandas ''1/22/20'' = Some 1
   \<and> id_key quebec \<notin> id_key ` set (rows example_deaths)
   \<and> id_key quebec \<notin> id_key ` set (rows example_recovered)
   \<and> full_data example_pandas example_confirmed example_deaths example_recovered
       = Inr example_full_data
   \<and> load_data example_pandas example_confirmed example_deaths example_recovered
       = Inr example_output
   \<and> quebec_1 \<in> set example_full_data
   \<and> on_key quebec_1 = (Some ''Quebec'', Some ''Canada'', 1, 52, - 73)
   \<and> Deaths quebec_1 = 0 \<and> Recovered quebec_1 = 0"
proof -
  have cols: "set (date_columns example_confirmed) \<subseteq> set (date_columns example_deaths)"
    "set (date_columns example_confirmed) \<subseteq> set (date_columns example_recovered)"
    by (simp_all add: example_defs)
  have parse: "\<forall>l \<in> set (date_columns example_confirmed). to_datetime example_pandas l \<noteq> None"
    by (simp add: example_defs)
  have dtypes: "same_key_dtypes example_confirmed example_deaths"
    "same_key_dtypes example_confirmed example_recovered"
    by (simp_all add: same_key_dtypes_def holds_strings_def example_defs)
  have c: "quebec \<in> set (rows example_confirmed)"
    and l: "''1/22/20'' \<in> set (date_columns example_confirmed)"
    and t: "to_datetime example_pandas ''1/22/20'' = Some 1"
    by (simp_all add: example_defs)
  have no_deaths: "\<forall>d \<in> set (rows example_deaths). id_key d \<noteq> id_key quebec"
    and no_recovered: "\<forall>r \<in> set (rows example_recovered). id_key r \<noteq> id_key quebec"
    by (simp_all add: example_defs id_key_def)
  have no: "id_key quebec \<notin> id_key ` set (rows example_deaths)"
    "id_key quebec \<notin> id_key ` set (rows example_recovered)"
    using no_deaths no_recovered by auto
  have mem: "quebec_1 \<in> set example_full_data" by (simp add: example_full_data_def)
  have key: "on_key quebec_1 = (Some ''Quebec'', Some ''Canada'', 1, 52, - 73)"
    by (simp add: on_key_def quebec_1_def)
  have key': "on_key quebec_1 =
      (Province_State quebec, Country_Region quebec, 1, Lat quebec, Long quebec)"
    by (simp add: on_key_def quebec_1_def quebec_def)
  from unmatched_rows_are_zero_filled [OF cols parse dtypes c l t]
  obtain fd where "full_data example_pandas example_confirmed example_deaths example_recovered
       = Inr fd"
    and d: "(\<forall>d \<in> set (rows example_deaths). id_key d \<noteq> id_key quebec) \<longrightarrow>
            (\<forall>m \<in> set fd. on_key m =
               (Province_State quebec, Country_Region quebec, 1, Lat quebec, Long quebec)
                \<longrightarrow> Deaths m = 0)"
    and r: "(\<forall>r \<in> set (rows example_recovered). id_key r \<noteq> id_key quebec) \<longrightarrow>
            (\<forall>m \<in> set fd. on_key m =
               (Province_State quebec, Country_Region quebec, 1, Lat quebec, Long quebec)
                \<longrightarrow> Recovered m = 0)"
    by (elim exE conjE)
  then have fd: "fd = example_full_data" by (simp add: example_full_run)
  from d no_deaths mem key' have "Deaths quebec_1 = 0" unfolding fd by blast
  moreover from r no_recovered mem key' have "Recovered quebec_1 = 0" unfolding fd by blast
  ultimately show ?thesis
    using cols dtypes c l t no example_full_run example_run mem key by blast
qed

text \<open>
  The confirmed table has a row for Ontario; the recovered table has rows for countries
  only, so none of its rows has the identifiers of Ontario, and its \<^verbatim>\<open>Province/State\<close>
  column, empty throughout, is float64. The second merge raises \<^verbatim>\<open>ValueError\<close>: no row
  is kept and nothing is filled with 0.
\<close>

theorem unmatched_rows_counterexample:
  "ontario \<in> set (rows example_confirmed)
   \<and> id_key ontario \<notin> id_key ` set (rows country_level_recovered)
   \<and> full_data example_pandas example_confirmed example_deaths country_level_recovered
       = Inl ValueError
   \<and> load_data example_pandas example_confirmed example_deaths country_level_recovered
       = Inl ValueError"
  by (simp add: load_data_def full_data_def melt_def example_defs country_level_recovered_def
      id_key_def merge_all_def merge_def incompatible_keys_def holds_strings_def
      merge_left_def on_key_def)

text \<open>
  Claim C6. The \<^verbatim>\<open>Confirmed\<close>, \<^verbatim>\<open>Deaths\<close> and \<^verbatim>\<open>Recovered\<close> of an output row are the
  sums of these columns over the rows of \<^verbatim>\<open>full_data\<close> that have the region and the
  date of the output row; within \<open>exact_range\<close> every partial sum of such a group has
  magnitude at most \<open>2\<^sup>5\<^sup>3\<close>, so the int64 or float64 sum of pandas is the sum of
  integers. When the date columns parse to pairwise distinct dates and neither the deaths
  nor the recovered table has two rows with the same identifiers, the joins repeat no row,
  and the three metrics are sums over the sub-region rows of the region in the confirmed
  table: \<^verbatim>\<open>Confirmed\<close> of the cell in the column of that date (a missing cell counts 0),
  \<^verbatim>\<open>Deaths\<close> and \<^verbatim>\<open>Recovered\<close> of the count that the deaths and the recovered table have
  for the identifiers of the sub-region row in that column (\<open>count_of\<close>). In the example,
  Ontario has 7 and Quebec 2 on the first date, and Canada has 9.
\<close>

theorem aggregated_metrics_are_group_sums:
  assumes run: "load_data pd C D R = Inr out" and fd: "full_data pd C D R = Inr fd"
    and range: "exact_range fd" and r: "r \<in> set out"
  shows "Confirmed r = sum_list (map Confirmed
            (filter (\<lambda>x. Country_Region x = Some (Country_Region r) \<and> Date x = Date r) fd))
       \<and> Deaths r = sum_list (map Deaths
            (filter (\<lambda>x. Country_Region x = Some (Country_Region r) \<and> Date x = Date r) fd))
       \<and> Recovered r = sum_list (map Recovered
            (filter (\<lambda>x. Country_Region x = Some (Country_Region r) \<and> Date x = Date r) fd))
       \<and> (\<forall>n. \<bar>sum_list (take n (map Confirmed
            (filter (\<lambda>x. Country_Region x = Some (Country_Region r) \<and> Date x = Date r) fd)))\<bar>
              \<le> 2 ^ 53
            \<and> \<bar>sum_list (take n (map Deaths
            (filter (\<lambda>x. Country_Region x = Some (Country_Region r) \<and> Date x = Date r) fd)))\<bar>
              \<le> 2 ^ 53
            \<and> \<bar>sum_list (take n (map Recovered
            (filter (\<lambda>x. Country_Region x = Some (Country_Region r) \<and> Date x = Date r) fd)))\<bar>
              \<le> 2 ^ 53)
       \<and> (distinct (map (to_datetime pd) (date_columns C))
            \<and> distinct (map id_key (rows D)) \<and> distinct (map id_key (rows R)) \<longrightarrow>
          (\<forall>l \<in> set (date_columns C). to_datetime pd l = Some (Date r) \<longrightarrow>
             Confirmed r = sum_list (map (\<lambda>c. fillna0 (cell c l))
               (filter (\<lambda>c. Country_Region c = Some (Country_Region r)) (rows C)))
           \<and> Deaths r = sum_list (map (\<lambda>c. count_of (rows D) c l)
               (filter (\<lambda>c. Country_Region c = Some (Country_Region r)) (rows C)))
           \<and> Recovered r = sum_list (map (\<lambda>c. count_of (rows R) c l)
               (filter (\<lambda>c. Country_Region c = Some (Country_Region r)) (rows C)))))"
proof -
  let ?g = "filter (\<lambda>x. Country_Region x = Some (Country_Region r) \<and> Date x = Date r) fd"
  let ?subs = "filter (\<lambda>c. Country_Region c = Some (Country_Region r)) (rows C)"
  note sums = load_data_row(1-3) [OF run fd r]
  have prefixes: "\<bar>sum_list (take n (map Confirmed ?g))\<bar> \<le> 2 ^ 53
      \<and> \<bar>sum_list (take n (map Deaths ?g))\<bar> \<le> 2 ^ 53
      \<and> \<bar>sum_list (take n (map Recovered ?g))\<bar> \<le> 2 ^ 53" for n
    using prefix_in_range [OF range] by blast
  have raw: "Confirmed r = sum_list (map (\<lambda>c. fillna0 (cell c l)) ?subs)
      \<and> Deaths r = sum_list (map (\<lambda>c. count_of (rows D) c l) ?subs)
      \<and> Recovered r = sum_list (map (\<lambda>c. count_of (rows R) c l) ?subs)"
    if "distinct (map (to_datetime pd) (date_columns C))"
      and "distinct (map id_key (rows D))" and "distinct (map id_key (rows R))"
      and "l \<in> set (date_columns C)" and "to_datetime pd l = Some (Date r)" for l
  proof -
    have eq: "map (\<lambda>m. (Confirmed m, Deaths m, Recovered m)) ?g =
        map (\<lambda>c. (fillna0 (cell c l), count_of (rows D) c l, count_of (rows R) c l)) ?subs"
      using fd that by (rule metrics_from_raw_rows)
    have "map fst (map (\<lambda>m. (Confirmed m, Deaths m, Recovered m)) ?g) =
        map fst (map (\<lambda>c. (fillna0 (cell c l), count_of (rows D) c l, count_of (rows R) c l)) ?subs)"
      by (simp only: eq)
    then have c: "map Confirmed ?g = map (\<lambda>c. fillna0 (cell c l)) ?subs"
      by (simp add: comp_def)
    have "map (\<lambda>p. fst (snd p)) (map (\<lambda>m. (Confirmed m, Deaths m, Recovered m)) ?g) =
        map (\<lambda>p. fst (snd p))
          (map (\<lambda>c. (fillna0 (cell c l), count_of (rows D) c l, count_of (rows R) c l)) ?subs)"
      by (simp only: eq)
    then have d: "map Deaths ?g = map (\<lambda>c. count_of (rows D) c l) ?subs"
      by (simp add: comp_def)
    have "map (\<lambda>p. snd (snd p)) (map (\<lambda>m. (Confirmed m, Deaths m, Recovered m)) ?g) =
        map (\<lambda>p. snd (snd p))
          (map (\<lambda>c. (fillna0 (cell c l), count_of (rows D) c l, count_of (rows R) c l)) ?subs)"
      by (simp only: eq)
    then have v: "map Recovered ?g = map (\<lambda>c. count_of (rows R) c l) ?subs"
      by (simp add: comp_def)
    show ?thesis unfolding sums c d v by simp
  qed
  show ?thesis using sums prefixes raw by blast
qed

theorem aggregated_metrics_are_group_sums_witness:
  "load_data example_pandas example_confirmed example_deaths example_recovered
     = Inr example_output
   \<and> full_data example_pandas example_confirmed example_deaths example_recovered
       = Inr example_full_data
   \<and> exact_range example_full_data
   \<and> canada_1 \<in> set example_output
   \<and> ''1/22/20'' \<in> set (date_columns example_confirmed)
   \<and> to_datetime example_pandas ''1/22/20'' = Some (Date canada_1)
   \<and> Confirmed canada_1 = sum_list (map (\<lambda>c. fillna0 (cell c ''1/22/20''))
        (filter (\<lambda>c. Country_Region c = Some (Country_Region canada_1))
           (rows example_confirmed)))
   \<and> map (\<lambda>c. fillna0 (cell c ''1/22/20''))
        (filter (\<lambda>c. Country_Region c = Some (Country_Region canada_1))
           (rows example_confirmed))
       = [7, 2]
   \<and> Confirmed canada_1 = 9"
proof -
  have mem: "canada_1 \<in> set example_output" by (simp add: example_output_def)
  have contract: "distinct (map (to_datetime example_pandas) (date_columns example_confirmed))
      \<and> distinct (map id_key (rows example_deaths))
      \<and> distinct (map id_key (rows example_recovered))"
    by (simp add: example_defs id_key_def)
  have l: "''1/22/20'' \<in> set (date_columns example_confirmed)"
    and t: "to_datetime example_pandas ''1/22/20'' = Some (Date canada_1)"
    by (simp_all add: example_defs canada_1_def)
  have vals: "map (\<lambda>c. fillna0 (cell c ''1/22/20''))
        (filter (\<lambda>c. Country_Region c = Some (Country_Region canada_1))
           (rows example_confirmed))
       = [7, 2]"
    by (simp add: example_defs canada_1_def fillna0_def)
  have nine: "Confirmed canada_1 = 9" by (simp add: canada_1_def)
  from aggregated_metrics_are_group_sums
    [OF example_run example_full_run example_in_range mem] contract l t
  have "Confirmed canada_1 = sum_list (map (\<lambda>c. fillna0 (cell c ''1/22/20''))
        (filter (\<lambda>c. Country_Region c = Some (Country_Region canada_1))
           (rows example_confirmed)))"
    by blast
  with example_run example_full_run example_in_range mem l t vals nine show ?thesis by blast
qed

text \<open>
  Claim C8. The output is ordered by region and, within a region, by ascending date; no two
  rows have the same region and date.
\<close>

theorem load_data_sorted:
  assumes "load_data pd C D R = Inr out"
  shows "sorted_wrt (\<lambda>a b. Country_Region a < Country_Region b \<or>
            (Country_Region a = Country_Region b \<and> Date a < Date b)) out"
proof -
  obtain fd where out: "out = add_derived (groupby_sum pd fd)"
    using load_data_Inr [OF assms] by blast
  have "sorted_wrt (<) (map group_key out)"
    using keys_groupby_sum(1,2) [of pd fd]
    by (simp add: out map_group_key_add_derived strict_sorted_iff)
  then have "sorted_wrt (\<lambda>a b. group_key a < group_key b) out"
    by (simp add: sorted_wrt_map)
  then show ?thesis
    by (rule sorted_wrt_mono_rel [rotated]) (auto simp: group_key_def less_prod_def')
qed

theorem load_data_sorted_witness:
  "load_data example_pandas example_confirmed example_deaths example_recovered
     = Inr example_output
   \<and> sorted_wrt (\<lambda>a b. Country_Region a < Country_Region b \<or>
        (Country_Region a = Country_Region b \<and> Date a < Date b)) example_output"
  using load_data_sorted [OF example_run] example_run by blast

text \<open>
  Claim C10, amended. The dates of the output are always among the parsed date labels of
  the confirmed table, so a date column that only the deaths or the recovered table has
  contributes nothing; and they are exactly the parsed date labels of the confirmed table
  when the confirmed table has at least one row with a region. With no row in the
  confirmed table the output is empty, and the equality of the claim as stated fails: see
  the counterexample after the theorem.
\<close>

theorem output_dates_from_confirmed_labels:
  assumes run: "load_data pd C D R = Inr out"
  shows "Date ` set out \<subseteq> {t. \<exists>l \<in> set (date_columns C). to_datetime pd l = Some t}
       \<and> ((\<exists>r \<in> set (rows C). Country_Region r \<noteq> None) \<longrightarrow>
            Date ` set out = {t. \<exists>l \<in> set (date_columns C). to_datetime pd l = Some t})"
proof -
  have "Date ` set out = snd ` set (map group_key out)"
    by (simp add: image_image group_key_def)
  also have "\<dots> = snd ` {(c, t) | r l t c. r \<in> set (rows C) \<and> Country_Region r = Some c
                 \<and> l \<in> set (date_columns C) \<and> to_datetime pd l = Some t}"
    by (simp only: keys_load_data(2) [OF run])
  finally have d: "Date ` set out = snd ` {(c, t) | r l t c.
        r \<in> set (rows C) \<and> Country_Region r = Some c
          \<and> l \<in> set (date_columns C) \<and> to_datetime pd l = Some t}" .
  have sub: "Date ` set out \<subseteq> {t. \<exists>l \<in> set (date_columns C). to_datetime pd l = Some t}"
    unfolding d by auto
  moreover have "Date ` set out = {t. \<exists>l \<in> set (date_columns C). to_datetime pd l = Some t}"
    if "\<exists>r \<in> set (rows C). Country_Region r \<noteq> None"
  proof -
    from that obtain r c where "r \<in> set (rows C)" "Country_Region r = Some c" by auto
    then show ?thesis unfolding d by force
  qed
  ultimately show ?thesis by blast
qed

theorem output_dates_from_confirmed_labels_witness:
  "load_data example_pandas example_confirmed example_deaths example_recovered
     = Inr example_output
   \<and> ontario \<in> set (rows example_confirmed) \<and> Country_Region ontario \<noteq> None
   \<and> ''1/24/20'' \<in> set (date_columns example_deaths)
   \<and> to_datetime example_pandas ''1/24/20'' = Some 3
   \<and> 3 \<notin> Date ` set example_output
   \<and> 2 \<in> Date ` set example_output"
proof -
  have ne: "ontario \<in> set (rows example_confirmed)" "Country_Region ontario \<noteq> None"
    by (simp_all add: example_defs)
  have extra: "''1/24/20'' \<in> set (date_columns example_deaths)"
    "to_datetime example_pandas ''1/24/20'' = Some 3"
    by (simp_all add: example_defs)
  have three: "3 \<notin> {t. \<exists>l \<in> set (date_columns example_confirmed).
      to_datetime example_pandas l = Some t}"
    by (simp add: example_defs)
  have two: "2 \<in> {t. \<exists>l \<in> set (date_columns example_confirmed).
      to_datetime example_pandas l = Some t}"
    by (simp add: example_defs)
  from output_dates_from_confirmed_labels [OF example_run] ne
  have "Date ` set example_output = {t. \<exists>l \<in> set (date_columns example_confirmed).
      to_datetime example_pandas l = Some t}"
    by blast
  with three two have "3 \<notin> Date ` set example_output" "2 \<in> Date ` set example_output"
    by simp_all
  with example_run ne extra show ?thesis by blast
qed

theorem output_dates_counterexample:
  "load_data example_pandas header_only header_only header_only = Inr []
   \<and> map (to_datetime example_pandas) (date_columns header_only) = [Some 1, Some 2]"
  by (simp add: load_data_def full_data_def melt_def example_defs header_only_def
      merge_all_def merge_def incompatible_keys_def merge_left_def fillna_metrics_def
      groupby_sum_def group_keys_def add_derived_def)

subsection \<open>Properties without a theorem\<close>

text \<open>
  Two properties of the specification have no theorem in this theory.

  That two runs of the transform on the same three tables return the same table: every
  definition of this theory is a function, so the statement holds of the model by
  construction, whatever the definitions are, and would say nothing about the program.

  That the \<^verbatim>\<open>Lat\<close> and \<^verbatim>\<open>Long\<close> of an output row are the sums of the coordinates of
  the rows of its group: the coordinate columns are float64, and their sum within a group
  is the floating-point sum of pandas, which the model has as the parameter
  \<open>sum_float\<close> only. \<open>groupby_sum\<close> applies \<open>sum_float\<close> to the coordinates of the
  rows of a group in their order; what it returns is outside the model.
\<close>

end
